theory Spec2Isabelle
  imports Complex_Main "HOL-Library.Sublist" "HOL-Library.AList"
begin

section \<open>Text\<close>

text \<open>
  A Python \<open>str\<close> is a sequence of Unicode code points. A code point is a natural
  number and a string is a list of them; \<open>u\<close> turns an ASCII literal into such a list.
\<close>

type_synonym uchar = nat
type_synonym ustring = "uchar list"

definition u :: "string \<Rightarrow> ustring" where
  "u s = map of_char s"

text \<open>
  The Unicode character database is part of the Python runtime, not of the repository, so
  the tables the code consults are parameters of the model:
  \<^item> \<open>uc_lower\<close> is \<open>str.lower\<close> (on whole strings: it may change the length),
  \<^item> \<open>uc_isspace\<close> is \<open>str.isspace\<close> on one character, which is also \<open>\s\<close> of \<open>re\<close>,
  \<^item> \<open>uc_isdecimal\<close> is \<open>\d\<close> of \<open>re\<close>, and \<open>uc_digit\<close> the digit's value,
  \<^item> \<open>uc_isalnum\<close> is \<open>str.isalnum\<close>; \<open>\w\<close> of \<open>re\<close> is that or the underscore,
  \<^item> \<open>uc_nfd\<close> is \<open>unicodedata.normalize("NFD", _)\<close>,
  \<^item> \<open>uc_is_mn\<close> says that \<open>unicodedata.category\<close> of a character is \<open>"Mn"\<close>,
  \<^item> \<open>uc_ieq\<close> says that two characters match each other under \<open>re.IGNORECASE\<close>.
\<close>

record unicode =
  uc_lower :: "ustring \<Rightarrow> ustring"
  uc_isspace :: "uchar \<Rightarrow> bool"
  uc_isdecimal :: "uchar \<Rightarrow> bool"
  uc_digit :: "uchar \<Rightarrow> nat"
  uc_isalnum :: "uchar \<Rightarrow> bool"
  uc_nfd :: "ustring \<Rightarrow> ustring"
  uc_is_mn :: "uchar \<Rightarrow> bool"
  uc_ieq :: "uchar \<Rightarrow> uchar \<Rightarrow> bool"

text \<open>The tables restricted to ASCII, for evaluating the model on ASCII texts.\<close>

definition ascii_lower_char :: "uchar \<Rightarrow> uchar" where
  "ascii_lower_char c = (if 65 \<le> c \<and> c \<le> 90 then c + 32 else c)"

definition ascii_isspace :: "uchar \<Rightarrow> bool" where
  "ascii_isspace c = (c = 32 \<or> (9 \<le> c \<and> c \<le> 13) \<or> (28 \<le> c \<and> c \<le> 31))"

definition ascii_isdecimal :: "uchar \<Rightarrow> bool" where
  "ascii_isdecimal c = (48 \<le> c \<and> c \<le> 57)"

definition ascii_isalnum :: "uchar \<Rightarrow> bool" where
  "ascii_isalnum c = ((48 \<le> c \<and> c \<le> 57) \<or> (65 \<le> c \<and> c \<le> 90) \<or> (97 \<le> c \<and> c \<le> 122))"

definition ascii_unicode :: unicode where
  "ascii_unicode = \<lparr>
     uc_lower = map ascii_lower_char,
     uc_isspace = ascii_isspace,
     uc_isdecimal = ascii_isdecimal,
     uc_digit = (\<lambda>c. c - 48),
     uc_isalnum = ascii_isalnum,
     uc_nfd = (\<lambda>s. s),
     uc_is_mn = (\<lambda>c. False),
     uc_ieq = (\<lambda>a b. ascii_lower_char a = ascii_lower_char b) \<rparr>"

text \<open>\<open>k in s\<close> on strings: \<open>k\<close> occurs in \<open>s\<close> as a contiguous block.\<close>

fun py_in :: "ustring \<Rightarrow> ustring \<Rightarrow> bool" where
  "py_in k [] = (k = [])"
| "py_in k (c # cs) = (prefix k (c # cs) \<or> py_in k cs)"

section \<open>Document type (extract.py)\<close>

definition KEYWORDS_FACTURE :: "ustring list" where
  "KEYWORDS_FACTURE = [u ''facture'', u ''invoice'', u ''rechnung'']"

definition KEYWORDS_AVOIR :: "ustring list" where
  "KEYWORDS_AVOIR =
     [u ''avoir'', u ''credit note'', u ''cr'' @ [233] @ u ''dit'', u ''remboursement'', u ''refund'']"

definition KEYWORDS_DEVIS :: "ustring list" where
  "KEYWORDS_DEVIS =
     [u ''devis'', u ''quote'', u ''estimation'', u ''proposition commerciale'', u ''proposal'']"

definition KEYWORDS_COURRIER :: "ustring list" where
  "KEYWORDS_COURRIER = [u ''courrier'', u ''lettre'', u ''letter'', u ''mail'', u ''correspondance'']"

definition KEYWORDS_PLAN :: "ustring list" where
  "KEYWORDS_PLAN =
     [u ''plan'', u ''sch'' @ [233] @ u ''ma'', u ''schema'', u ''drawing'', u ''plan de'', u ''plan d'' @ [39]]"

definition KEYWORDS_IMPOTS :: "ustring list" where
  "KEYWORDS_IMPOTS =
     [u ''imp'' @ [244] @ u ''ts'', u ''impots'', u ''avis d'' @ [39] @ u ''imposition'',
      u ''avis d'' @ [39] @ u ''imp'' @ [244] @ u ''t'', u ''dgfip'', u ''urssaf'', u ''caf'',
      u ''taxe'', u ''fiscal'', u ''revenus'']"

text \<open>
  One \<open>for k in KEYWORDS: if k in lower: return ...\<close> loop: whether it returns.
\<close>

fun kw_loop :: "ustring list \<Rightarrow> ustring \<Rightarrow> bool" where
  "kw_loop [] lower = False"
| "kw_loop (k # ks) lower = (if py_in k lower then True else kw_loop ks lower)"

definition extract_type_document :: "unicode \<Rightarrow> ustring \<Rightarrow> ustring" where
  "extract_type_document U texte =
     (let lower = uc_lower U texte in
      if kw_loop KEYWORDS_AVOIR lower then u ''avoir''
      else if kw_loop KEYWORDS_FACTURE lower then u ''facture_fournisseur''
      else if kw_loop KEYWORDS_DEVIS lower then u ''devis''
      else if kw_loop KEYWORDS_COURRIER lower then u ''courrier''
      else if kw_loop KEYWORDS_PLAN lower then u ''plan''
      else if kw_loop KEYWORDS_IMPOTS lower then u ''impots''
      else u ''inconnu'')"

text \<open>
  The ladder as the specification words it: a class of keywords hits a text when one of
  its keywords occurs, as a contiguous block, in the lower-cased text.
\<close>

definition occurs_in :: "ustring \<Rightarrow> ustring \<Rightarrow> bool" where
  "occurs_in k s = (\<exists>p q. s = p @ k @ q)"

definition hits :: "unicode \<Rightarrow> ustring list \<Rightarrow> ustring \<Rightarrow> bool" where
  "hits U ks texte = (\<exists>k \<in> set ks. occurs_in k (uc_lower U texte))"

section \<open>Confidence (models.py, classify.py)\<close>

text \<open>
  \<open>datetime.date\<close> is a record of year, month and day. A Python \<open>float\<close> is modelled
  by the real number it stands for.
\<close>

record date =
  year :: int
  month :: int
  day :: int

text \<open>
  The dataclass \<open>ExtractedData\<close>. The last field is the attribute \<open>_type_doc_slug\<close> that
  \<open>ensure_type_doc\<close> attaches to the object with \<open>setattr\<close>; \<open>None\<close> says that the
  attribute is not there.
\<close>

record ExtractedData =
  type_document :: ustring
  date_doc :: "date option"
  montant_ttc :: "real option"
  numero_facture :: "ustring option"
  fournisseur :: "ustring option"
  fournisseur_raw :: "ustring option"
  texte_complet :: ustring
  confidence :: real
  type_doc_slug :: "ustring option"

text \<open>Truth value of an \<open>Optional[str]\<close>: neither \<open>None\<close> nor the empty string.\<close>

fun truthy :: "ustring option \<Rightarrow> bool" where
  "truthy None = False"
| "truthy (Some s) = (s \<noteq> [])"












definition example_full :: ExtractedData where
  "example_full = \<lparr> type_document = u ''facture_fournisseur'',
     date_doc = Some \<lparr> year = 2024, month = 3, day = 15 \<rparr>, montant_ttc = Some 1500,
     numero_facture = Some (u ''FAC-2024-042''), fournisseur = Some (u ''EDF''),
     fournisseur_raw = Some (u ''EDF SA''), texte_complet = [], confidence = 0,
     type_doc_slug = None \<rparr>"

section \<open>Paths and the file system (pathlib, shutil)\<close>

text \<open>
  A \<open>pathlib\<close> path is the list of its parts, as \<open>PurePosixPath.parts\<close> gives them: the
  root (\<open>/\<close>, or \<open>//\<close> for exactly two leading slashes) first when there is one, then the
  components, with empty and \<open>.\<close> components dropped.
\<close>

type_synonym path = "ustring list"

fun py_split :: "uchar \<Rightarrow> ustring \<Rightarrow> ustring list" where
  "py_split d [] = [[]]"
| "py_split d (c # cs) =
     (if c = d then [] # py_split d cs
      else (case py_split d cs of [] \<Rightarrow> [[c]] | w # ws \<Rightarrow> (c # w) # ws))"

definition path_parts :: "ustring \<Rightarrow> ustring list" where
  "path_parts s = filter (\<lambda>w. w \<noteq> [] \<and> w \<noteq> [46]) (py_split 47 s)"

definition path_root :: "ustring \<Rightarrow> ustring list" where
  "path_root s =
     (if take 2 s = [47, 47] \<and> take 3 s \<noteq> [47, 47, 47] then [[47, 47]]
      else if take 1 s = [47] then [[47]]
      else [])"

definition Path :: "ustring \<Rightarrow> path" where
  "Path s = path_root s @ path_parts s"

text \<open>\<open>p / s\<close>: a rooted right operand replaces the left one.\<close>

definition joinpath :: "path \<Rightarrow> ustring \<Rightarrow> path" where
  "joinpath p s = (if path_root s \<noteq> [] then Path s else p @ path_parts s)"

definition is_root :: "ustring \<Rightarrow> bool" where
  "is_root c = (c = [47] \<or> c = [47, 47])"

definition path_name :: "path \<Rightarrow> ustring" where
  "path_name p = (if p = [] \<or> (length p = 1 \<and> is_root (hd p)) then [] else last p)"

text \<open>\<open>s.rfind(c)\<close>, with \<open>None\<close> for \<open>-1\<close>.\<close>

fun rfind :: "uchar \<Rightarrow> ustring \<Rightarrow> nat option" where
  "rfind d [] = None"
| "rfind d (c # cs) =
     (case rfind d cs of Some i \<Rightarrow> Some (Suc i) | None \<Rightarrow> (if c = d then Some 0 else None))"

text \<open>
  \<open>suffix\<close> and \<open>stem\<close> as \<open>pathlib\<close> computes them (Python 3.11 to 3.13): the name is
  cut at its last dot unless that dot is the first or the last character.
\<close>

definition path_suffix :: "path \<Rightarrow> ustring" where
  "path_suffix p =
     (let name = path_name p in
      case rfind 46 name of
        Some i \<Rightarrow> (if 0 < i \<and> i + 1 < length name then drop i name else [])
      | None \<Rightarrow> [])"

definition path_stem :: "path \<Rightarrow> ustring" where
  "path_stem p =
     (let name = path_name p in
      case rfind 46 name of
        Some i \<Rightarrow> (if 0 < i \<and> i + 1 < length name then take i name else name)
      | None \<Rightarrow> name)"

text \<open>\<open>str(p)\<close>: the parts joined by slashes, and \<open>.\<close> for the empty path.\<close>

fun join_parts :: "ustring list \<Rightarrow> ustring" where
  "join_parts [] = []"
| "join_parts [c] = c"
| "join_parts (c # cs) = c @ [47] @ join_parts cs"

definition str_path :: "path \<Rightarrow> ustring" where
  "str_path p =
     (case p of [] \<Rightarrow> [46]
      | c # cs \<Rightarrow> (if is_root c then c @ join_parts cs else join_parts p))"

text \<open>\<open>str(i)\<close> of a natural number: its decimal digits.\<close>

fun str_nat :: "nat \<Rightarrow> ustring" where
  "str_nat n = (if n < 10 then [48 + n] else str_nat (n div 10) @ [48 + n mod 10])"

declare str_nat.simps [simp del]

text \<open>
  The file system is a finite table from paths to nodes: a regular file with its contents,
  or a directory. The empty path (the working directory) and a root are directories.
\<close>

datatype node = File ustring | Dir

type_synonym filesystem = "(path \<times> node) list"

definition fs_is_dir :: "filesystem \<Rightarrow> path \<Rightarrow> bool" where
  "fs_is_dir fs p = (p = [] \<or> (length p = 1 \<and> is_root (hd p)) \<or> map_of fs p = Some Dir)"

definition fs_is_file :: "filesystem \<Rightarrow> path \<Rightarrow> bool" where
  "fs_is_file fs p = (case map_of fs p of Some (File c) \<Rightarrow> \<not> fs_is_dir fs p | _ \<Rightarrow> False)"

definition fs_exists :: "filesystem \<Rightarrow> path \<Rightarrow> bool" where
  "fs_exists fs p = (fs_is_dir fs p \<or> fs_is_file fs p)"

text \<open>
  An exception of the operating system, with \<open>str(e)\<close>. What the operating system refuses
  for reasons the table does not hold (permissions, a full disk, a share that went away)
  is given by a table of faults: for each call, the exception it raises, if any.
\<close>

datatype exn = OSError nat ustring

fun py_str_exn :: "exn \<Rightarrow> ustring" where
  "py_str_exn (OSError n msg) = u ''[Errno '' @ str_nat n @ u ''] '' @ msg"

record os_faults =
  mkdir_fault :: "path \<Rightarrow> exn option"
  move_fault :: "path \<Rightarrow> path \<Rightarrow> exn option"
  resolve_fault :: "path \<Rightarrow> exn option"


section \<open>The mover (mover.py)\<close>

text \<open>
  \<open>path.mkdir(parents=True, exist_ok=True)\<close>: every missing directory on the way is
  created; a regular file on the way makes it fail.
\<close>

definition mk_step :: "filesystem \<Rightarrow> path \<Rightarrow> filesystem" where
  "mk_step fs q = (if fs_is_dir fs q then fs else AList.update q Dir fs)"

definition mkdir_parents :: "filesystem \<Rightarrow> path \<Rightarrow> exn + filesystem" where
  "mkdir_parents fs p =
     (if \<exists>q \<in> set (prefixes p). fs_is_file fs q then Inl (OSError 17 (u ''File exists''))
      else Inr (foldl mk_step fs (prefixes p)))"

definition ensure_dir :: "os_faults \<Rightarrow> filesystem \<Rightarrow> path \<Rightarrow> exn + filesystem" where
  "ensure_dir F fs p =
     (case mkdir_fault F p of Some e \<Rightarrow> Inl e | None \<Rightarrow> mkdir_parents fs p)"

text \<open>
  \<open>shutil.move(src, dst)\<close> of a regular file: into \<open>dst\<close> when \<open>dst\<close> is a directory, else
  onto \<open>dst\<close>, replacing a file that is there. When it raises, the source is still in place.
\<close>

definition shutil_move :: "os_faults \<Rightarrow> filesystem \<Rightarrow> path \<Rightarrow> path \<Rightarrow> exn + filesystem" where
  "shutil_move F fs src dst =
     (case move_fault F src dst of
        Some e \<Rightarrow> Inl e
      | None \<Rightarrow>
          (case map_of fs src of
             Some (File c) \<Rightarrow>
               (let real_dst = (if fs_is_dir fs dst then dst @ [path_name src] else dst) in
                if fs_is_dir fs (butlast real_dst)
                then Inr (AList.update real_dst (File c) (AList.delete src fs))
                else Inl (OSError 2 (u ''No such file or directory'')))
           | _ \<Rightarrow> Inl (OSError 2 (u ''No such file or directory''))))"

definition resolve :: "os_faults \<Rightarrow> path \<Rightarrow> exn + path" where
  "resolve F p = (case resolve_fault F p of Some e \<Rightarrow> Inl e | None \<Rightarrow> Inr p)"

text \<open>
  The \<open>while True\<close> loop of \<open>_unique_path\<close>. It ends only when a candidate is free, so the
  model returns an option, and \<open>None\<close> stands for a loop that never ends.
\<close>

definition candidate_name :: "ustring \<Rightarrow> ustring \<Rightarrow> nat \<Rightarrow> ustring" where
  "candidate_name stem sfx i = stem @ [95] @ str_nat i @ sfx"

partial_function (option) unique_loop ::
  "filesystem \<Rightarrow> path \<Rightarrow> ustring \<Rightarrow> ustring \<Rightarrow> nat \<Rightarrow> path option" where
  "unique_loop fs dest_dir stem sfx i =
     (let candidate = joinpath dest_dir (candidate_name stem sfx i) in
      if \<not> fs_exists fs candidate then Some candidate
      else unique_loop fs dest_dir stem sfx (i + 1))"

definition unique_path :: "filesystem \<Rightarrow> path \<Rightarrow> ustring \<Rightarrow> path option" where
  "unique_path fs dest_dir base_name =
     (let dest = joinpath dest_dir base_name in
      if \<not> fs_exists fs dest then Some dest
      else unique_loop fs dest_dir (path_stem dest) (path_suffix dest) 1)"

record ProcessingResult =
  source_path :: path
  dest_dir :: path
  dest_filename :: ustring
  extracted :: ExtractedData
  moved :: bool
  error :: "ustring option"

text \<open>
  \<open>move_to_destination\<close> returns the result and leaves the file system changed; the model
  returns both. The \<open>try\<close> block is the chain of cases: the first call that raises takes
  the \<open>except\<close> branch, which records \<open>str(e)\<close> on the result as it stands at that point.
\<close>

definition move_to_destination ::
  "os_faults \<Rightarrow> filesystem \<Rightarrow> path \<Rightarrow> path \<Rightarrow> ustring \<Rightarrow> ExtractedData \<Rightarrow> bool
     \<Rightarrow> (filesystem \<times> ProcessingResult) option" where
  "move_to_destination F fs source dest filename extr dry_run =
     (let result = \<lparr> source_path = source, dest_dir = dest, dest_filename = filename,
                      extracted = extr, moved = False, error = None \<rparr> in
      if dry_run then Some (fs, result\<lparr>dest_filename := filename\<rparr>)
      else if \<not> fs_is_file fs source
        then Some (fs, result\<lparr>error := Some (u ''Fichier source introuvable: '' @ str_path source)\<rparr>)
      else
        (case ensure_dir F fs dest of
           Inl e \<Rightarrow> Some (fs, result\<lparr>error := Some (py_str_exn e)\<rparr>)
         | Inr fs1 \<Rightarrow>
             (case unique_path fs1 dest filename of
                None \<Rightarrow> None
              | Some final_path \<Rightarrow>
                  (case shutil_move F fs1 source final_path of
                     Inl e \<Rightarrow> Some (fs1, result\<lparr>error := Some (py_str_exn e)\<rparr>)
                   | Inr fs2 \<Rightarrow>
                       (let result = result\<lparr>dest_filename := path_name final_path\<rparr>;
                            result = result\<lparr>moved := True\<rparr> in
                        case resolve F final_path of
                          Inl e \<Rightarrow> Some (fs2, result\<lparr>error := Some (py_str_exn e)\<rparr>)
                        | Inr final_path_resolved \<Rightarrow>
                            (case resolve F source of
                               Inl e \<Rightarrow> Some (fs2, result\<lparr>error := Some (py_str_exn e)\<rparr>)
                             | Inr _ \<Rightarrow> Some (fs2, result)))))))"

text \<open>
  A path value has no slash inside a part, a root apart; every value that \<open>Path\<close> and
  \<open>/\<close> build is of that kind.
\<close>

definition wf_path :: "path \<Rightarrow> bool" where
  "wf_path p = (case p of [] \<Rightarrow> True
     | c # cs \<Rightarrow> (is_root c \<or> 47 \<notin> set c) \<and> (\<forall>x \<in> set cs. 47 \<notin> set x))"






text \<open>
  An example: three scanned files in \<open>/in\<close>, and a destination \<open>/out\<close> that does not
  exist yet.
\<close>

definition example_fs :: filesystem where
  "example_fs =
     [([[47], u ''in'', u ''a.pdf''], File (u ''A'')),
      ([[47], u ''in'', u ''b.pdf''], File (u ''B'')),
      ([[47], u ''in'', u ''c.pdf''], File (u ''C'')),
      ([[47], u ''in''], Dir)]"


definition example_dest :: path where
  "example_dest = [[47], u ''out'']"


text \<open>
  A table of faults for the example: the move itself goes through, and resolving the
  final path for the log line raises (\<open>Path.resolve\<close> raises \<open>OSError\<close> when a network
  destination drops, and \<open>RuntimeError\<close> on a symbolic-link loop before Python 3.13).
\<close>

definition example_faults :: os_faults where
  "example_faults = \<lparr> mkdir_fault = (\<lambda>p. None), move_fault = (\<lambda>p q. None),
     resolve_fault = (\<lambda>p. if p = [[47], u ''out'', u ''x.pdf'']
        then Some (OSError 64 (u ''The specified network name is no longer available''))
        else None) \<rparr>"


section \<open>The watcher (watcher.py)\<close>
























section \<open>Supplier resolution (suppliers.py)\<close>

text \<open>
  \<open>rapidfuzz.fuzz\<close> is a library outside the repository: its two scoring functions are
  parameters of the model, and \<open>None\<close> for the module says that the import failed. The
  alias dictionary is the list of its items in insertion order.
\<close>

record fuzz =
  fz_ratio :: "ustring \<Rightarrow> ustring \<Rightarrow> real"
  fz_partial_ratio :: "ustring \<Rightarrow> ustring \<Rightarrow> real"

definition DEFAULT_SCORE_CUTOFF :: int where
  "DEFAULT_SCORE_CUTOFF = 70"

text \<open>The loop of the fallback: the value of the first key contained in the raw text.\<close>

fun fallback_loop :: "unicode \<Rightarrow> ustring \<Rightarrow> (ustring \<times> ustring) list \<Rightarrow> ustring option" where
  "fallback_loop U raw [] = None"
| "fallback_loop U raw ((key, val) # rest) =
     (if py_in (uc_lower U key) (uc_lower U raw) then Some val else fallback_loop U raw rest)"

text \<open>The scoring loop, carrying \<open>best_ratio\<close> and \<open>best_value\<close>.\<close>

fun fuzzy_loop ::
  "unicode \<Rightarrow> fuzz \<Rightarrow> ustring \<Rightarrow> int \<Rightarrow> (ustring \<times> ustring) list
     \<Rightarrow> real \<times> ustring option \<Rightarrow> real \<times> ustring option" where
  "fuzzy_loop U fz raw score_cutoff [] best = best"
| "fuzzy_loop U fz raw score_cutoff ((alias, folder_name) # rest) (best_ratio, best_value) =
     (let r = fz_ratio fz (uc_lower U raw) (uc_lower U alias);
          (best_ratio, best_value) =
            (if r \<ge> real_of_int score_cutoff \<and> r > best_ratio then (r, Some folder_name)
             else (best_ratio, best_value));
          pr = fz_partial_ratio fz (uc_lower U raw) (uc_lower U alias);
          (best_ratio, best_value) =
            (if pr \<ge> real_of_int score_cutoff \<and> pr > best_ratio then (pr, Some folder_name)
             else (best_ratio, best_value))
      in fuzzy_loop U fz raw score_cutoff rest (best_ratio, best_value))"

definition resolve_fournisseur ::
  "unicode \<Rightarrow> fuzz option \<Rightarrow> ExtractedData \<Rightarrow> (ustring \<times> ustring) list \<Rightarrow> int \<Rightarrow> ExtractedData" where
  "resolve_fournisseur U fuzz_mod extr mapping_fournisseurs score_cutoff =
     (case fournisseur_raw extr of
        None \<Rightarrow> extr
      | Some raw \<Rightarrow>
          (if raw = [] \<or> mapping_fournisseurs = [] then extr
           else
             (case fuzz_mod of
                None \<Rightarrow>
                  (case fallback_loop U raw mapping_fournisseurs of
                     Some v \<Rightarrow> extr\<lparr>fournisseur := Some v\<rparr>
                   | None \<Rightarrow> extr)
              | Some fz \<Rightarrow>
                  (case fuzzy_loop U fz raw score_cutoff mapping_fournisseurs (0, None) of
                     (best_ratio, best_value) \<Rightarrow>
                       (if truthy best_value then extr\<lparr>fournisseur := best_value\<rparr> else extr)))))"

text \<open>
  The resolution as the specification words it. The score of an alias is the larger of
  its two similarity scores; \<open>first_max\<close> picks, from a list, the first element whose
  score no element exceeds; \<open>spec_best\<close> is the first alias of maximal score among those
  that meet the cutoff; \<open>spec_first_contained\<close> is the first alias contained in the raw
  text, both lower-cased.
\<close>

definition alias_score :: "unicode \<Rightarrow> fuzz \<Rightarrow> ustring \<Rightarrow> ustring \<times> ustring \<Rightarrow> real" where
  "alias_score U fz raw e =
     max (fz_ratio fz (uc_lower U raw) (uc_lower U (fst e)))
         (fz_partial_ratio fz (uc_lower U raw) (uc_lower U (fst e)))"

fun first_max :: "('a \<Rightarrow> real) \<Rightarrow> 'a list \<Rightarrow> 'a option" where
  "first_max f [] = None"
| "first_max f (x # xs) =
     (case first_max f xs of
        None \<Rightarrow> Some x
      | Some y \<Rightarrow> (if f x < f y then Some y else Some x))"

definition spec_best ::
  "unicode \<Rightarrow> fuzz \<Rightarrow> ustring \<Rightarrow> (ustring \<times> ustring) list \<Rightarrow> int \<Rightarrow> (ustring \<times> ustring) option" where
  "spec_best U fz raw mapping cutoff =
     first_max (alias_score U fz raw)
       (filter (\<lambda>e. real_of_int cutoff \<le> alias_score U fz raw e) mapping)"

definition spec_first_contained ::
  "unicode \<Rightarrow> ustring \<Rightarrow> (ustring \<times> ustring) list \<Rightarrow> (ustring \<times> ustring) option" where
  "spec_first_contained U raw mapping =
     find (\<lambda>e. occurs_in (uc_lower U (fst e)) (uc_lower U raw)) mapping"

text \<open>
  A scorer for the examples. It gives what \<open>rapidfuzz\<close> gives where the examples use it:
  100 for two equal strings and for a string that contains the other, 0 for two strings
  with no character in common.
\<close>

definition example_fuzz :: fuzz where
  "example_fuzz = \<lparr> fz_ratio = (\<lambda>a b. if a = b then 100 else 0),
     fz_partial_ratio = (\<lambda>a b. if py_in a b \<or> py_in b a then 100 else 0) \<rparr>"

definition example_raw :: "ustring \<Rightarrow> ExtractedData" where
  "example_raw raw = \<lparr> type_document = u ''inconnu'', date_doc = None, montant_ttc = None,
     numero_facture = None, fournisseur = None, fournisseur_raw = Some raw,
     texte_complet = [], confidence = 0, type_doc_slug = None \<rparr>"


section \<open>Slugs and templates (rules.py)\<close>

text \<open>String methods of Python the code uses.\<close>

definition py_strip_chars :: "uchar list \<Rightarrow> ustring \<Rightarrow> ustring" where
  "py_strip_chars cs s = rev (dropWhile (\<lambda>c. c \<in> set cs) (rev (dropWhile (\<lambda>c. c \<in> set cs) s)))"

definition py_strip :: "unicode \<Rightarrow> ustring \<Rightarrow> ustring" where
  "py_strip U s = rev (dropWhile (uc_isspace U) (rev (dropWhile (uc_isspace U) s)))"

definition py_endswith :: "ustring \<Rightarrow> ustring \<Rightarrow> bool" where
  "py_endswith s t = suffix t s"

text \<open>\<open>s[:n]\<close>: a negative \<open>n\<close> counts from the end.\<close>

definition py_slice_to :: "ustring \<Rightarrow> int \<Rightarrow> ustring" where
  "py_slice_to s n = (if 0 \<le> n then take (nat n) s else take (length s - nat (- n)) s)"

text \<open>
  \<open>s.replace(old, new)\<close>: every occurrence of \<open>old\<close>, left to right and without
  overlap; an empty \<open>old\<close> puts \<open>new\<close> before every character and at the end.
\<close>

function py_replace :: "ustring \<Rightarrow> ustring \<Rightarrow> ustring \<Rightarrow> ustring" where
  "py_replace old new [] = (if old = [] then new else [])"
| "py_replace old new (c # cs) =
     (if old = [] then new @ c # py_replace old new cs
      else if prefix old (c # cs) then new @ py_replace old new (drop (length old) (c # cs))
      else c # py_replace old new cs)"
  by pat_completeness auto
termination
  by (relation "measure (\<lambda>(old, new, s). length s)") auto

text \<open>\<open>\w\<close> of \<open>re\<close>: alphanumeric or the underscore.\<close>

definition re_word :: "unicode \<Rightarrow> uchar \<Rightarrow> bool" where
  "re_word U c = (uc_isalnum U c \<or> c = 95)"

text \<open>
  \<open>re.sub(r"[^\w\s\-]", " ", s)\<close> replaces, one by one, the characters outside the class.
\<close>

definition sub_special :: "unicode \<Rightarrow> ustring \<Rightarrow> ustring" where
  "sub_special U s = map (\<lambda>c. if re_word U c \<or> uc_isspace U c \<or> c = 45 then c else 32) s"

text \<open>
  \<open>re.sub(r"[-\s]+", "_", s)\<close> replaces every maximal run of dashes and white space by
  one underscore; the flag says that the character before was part of a run.
\<close>

fun sub_runs :: "unicode \<Rightarrow> bool \<Rightarrow> ustring \<Rightarrow> ustring" where
  "sub_runs U in_run [] = []"
| "sub_runs U in_run (c # cs) =
     (if c = 45 \<or> uc_isspace U c
      then (if in_run then sub_runs U True cs else 95 # sub_runs U True cs)
      else c # sub_runs U False cs)"

definition slugify :: "unicode \<Rightarrow> ustring \<Rightarrow> int \<Rightarrow> ustring" where
  "slugify U val max_length =
     (if val = [] then []
      else
        (let nfd = uc_nfd U val;
             ascii_str = filter (\<lambda>c. \<not> uc_is_mn U c) nfd;
             ascii_str = sub_special U ascii_str;
             ascii_str = py_strip_chars [95] (sub_runs U False ascii_str)
         in if max_length \<noteq> 0 then py_slice_to ascii_str max_length else ascii_str))"

text \<open>
  What the idempotence of \<open>slugify\<close> needs of the tables, all of it true of Unicode: the
  space is white space and the underscore is not; an alphanumeric character or the
  underscore is not a nonspacing mark; and a string made of underscores and of
  alphanumeric characters of a normalized string is its own normal form.
\<close>

definition slug_tables :: "unicode \<Rightarrow> bool" where
  "slug_tables U \<longleftrightarrow>
     uc_isspace U 32 \<and> \<not> uc_isspace U 95 \<and> \<not> uc_is_mn U 95
     \<and> (\<forall>c. uc_isalnum U c \<longrightarrow> \<not> uc_is_mn U c)
     \<and> (\<forall>s t. (\<forall>c \<in> set t. c = 95 \<or> (c \<in> set (uc_nfd U s) \<and> uc_isalnum U c)) \<longrightarrow> uc_nfd U t = t)"

text \<open>\<open>s.rstrip("_")\<close>.\<close>

definition rstrip_underscores :: "ustring \<Rightarrow> ustring" where
  "rstrip_underscores s = rev (dropWhile (\<lambda>c. c = 95) (rev s))"


text \<open>The slug before its truncation.\<close>

definition slug_core :: "unicode \<Rightarrow> ustring \<Rightarrow> ustring" where
  "slug_core U v = py_strip_chars [95] (sub_runs U False (sub_special U (filter (\<lambda>c. \<not> uc_is_mn U c) (uc_nfd U v))))"


section \<open>Type slug (classify.py) and destination names (rules.py)\<close>

definition slug_map :: "(ustring \<times> ustring) list" where
  "slug_map =
     [(u ''facture_fournisseur'', u ''FACT''), (u ''avoir'', u ''AVR''), (u ''devis'', u ''DEVIS''),
      (u ''courrier'', u ''COURRIER''), (u ''plan'', u ''PLAN''), (u ''impots'', u ''IMPOTS'')]"

definition slug_map_get :: "ustring \<Rightarrow> ustring" where
  "slug_map_get t = (case map_of slug_map t of Some s \<Rightarrow> s | None \<Rightarrow> u ''INCONNU'')"

definition ensure_type_doc :: "ExtractedData \<Rightarrow> ExtractedData" where
  "ensure_type_doc extr = extr\<lparr>type_doc_slug := Some (slug_map_get (type_document extr))\<rparr>"

text \<open>\<open>get_type_doc_slug\<close> returns the slug and leaves the attribute set on the object.\<close>

definition get_type_doc_slug :: "ExtractedData \<Rightarrow> ustring \<times> ExtractedData" where
  "get_type_doc_slug extr =
     (case type_doc_slug extr of
        Some s \<Rightarrow> (s, extr)
      | None \<Rightarrow> (slug_map_get (type_document extr), ensure_type_doc extr))"

text \<open>
  What the C library decides is a parameter: \<open>strftime("%Y")\<close> (the padding of a year
  below 1000 differs between platforms) and the rounding of \<open>f"{x:.2f}"\<close>. The formats
  \<open>%m\<close> and \<open>%d\<close> are two digits.
\<close>

record platform =
  strftime_Y :: "date \<Rightarrow> ustring"
  format_2f :: "real \<Rightarrow> ustring"

definition two_digits :: "int \<Rightarrow> ustring" where
  "two_digits n = (if n < 10 then [48] @ str_nat (nat n) else str_nat (nat n))"

definition format_montant :: "platform \<Rightarrow> real option \<Rightarrow> ustring" where
  "format_montant P montant =
     (case montant of
        None \<Rightarrow> u ''0''
      | Some m \<Rightarrow> py_replace (u '','') (u ''_'') (py_replace (u ''.'') (u '','') (format_2f P m)))"

text \<open>
  The configuration, as far as \<open>build_placeholders\<close> reads it: the list under
  \<open>cles_personnalisees\<close> (empty when the key is missing or \<open>None\<close>, and when there is no
  configuration). An item is a dictionary, of which the values under \<open>cle\<close> and
  \<open>valeur_par_defaut\<close> count, a list or tuple of strings, or something else.
\<close>

datatype custom_item =
    ItemDict "ustring option" "ustring option"
  | ItemSeq "ustring list"
  | ItemOther

record config =
  cles_personnalisees :: "custom_item list"

definition or_empty :: "ustring option \<Rightarrow> ustring" where
  "or_empty x = (case x of Some s \<Rightarrow> s | None \<Rightarrow> [])"

definition or_default :: "ustring option \<Rightarrow> ustring \<Rightarrow> ustring" where
  "or_default x d = (case x of Some s \<Rightarrow> (if s = [] then d else s) | None \<Rightarrow> d)"

fun custom_entry :: "unicode \<Rightarrow> custom_item \<Rightarrow> (ustring \<times> ustring) option" where
  "custom_entry U (ItemDict cle val) =
     (let cle = py_strip U (or_empty cle); val = py_strip U (or_empty val) in
      if cle \<noteq> [] then Some (cle, if val \<noteq> [] then val else cle) else None)"
| "custom_entry U (ItemSeq (a # b # rest)) =
     (let cle = py_strip U a; val = py_strip U b in
      if cle \<noteq> [] then Some (cle, if val \<noteq> [] then val else cle) else None)"
| "custom_entry U (ItemSeq xs) = None"
| "custom_entry U ItemOther = None"

definition build_placeholders ::
  "unicode \<Rightarrow> platform \<Rightarrow> ExtractedData \<Rightarrow> config option
     \<Rightarrow> (ustring \<times> ustring) list \<times> ExtractedData" where
  "build_placeholders U P extr cfg =
     (let d = date_doc extr;
          yyyy = (case d of Some d \<Rightarrow> strftime_Y P d | None \<Rightarrow> u ''0000'');
          mm = (case d of Some d \<Rightarrow> two_digits (month d) | None \<Rightarrow> u ''00'');
          dd = (case d of Some d \<Rightarrow> two_digits (day d) | None \<Rightarrow> u ''00'');
          fournisseur = py_strip U (or_default (fournisseur extr) (u ''Inconnu''));
          fournisseur_slug = slugify U fournisseur 60;
          numero = py_strip U (or_default (numero_facture extr) (u ''N''));
          numero_slug = slugify U numero 40;
          montant_str = format_montant P (montant_ttc extr);
          (type_doc, extr) = get_type_doc_slug extr;
          impots_slug = (if type_doc = u ''IMPOTS'' then fournisseur_slug else slugify U (u ''impots'') 60);
          client_slug = fournisseur_slug;
          out = [(u ''fournisseur'', fournisseur_slug), (u ''client'', client_slug),
                 (u ''impots'', impots_slug), (u ''YYYY'', yyyy), (u ''MM'', mm), (u ''DD'', dd),
                 (u ''numero'', numero_slug), (u ''montant'', montant_str), (u ''type_doc'', type_doc)];
          items = (case cfg of None \<Rightarrow> [] | Some c \<Rightarrow> cles_personnalisees c)
      in (foldl (\<lambda>out item. case custom_entry U item of
                                 Some (cle, val) \<Rightarrow> AList.update cle val out
                               | None \<Rightarrow> out) out items,
          extr))"

text \<open>
  \<open>re.sub(r"\{[^}]+\}", "", s)\<close>: an opening brace, at least one character that is not a
  closing brace, and the closing brace are removed; the search goes on after the match.
\<close>

function sub_unresolved :: "ustring \<Rightarrow> ustring" where
  "sub_unresolved [] = []"
| "sub_unresolved (c # cs) =
     (if c = 123 \<and> takeWhile (\<lambda>x. x \<noteq> 125) cs \<noteq> [] \<and> dropWhile (\<lambda>x. x \<noteq> 125) cs \<noteq> []
      then sub_unresolved (tl (dropWhile (\<lambda>x. x \<noteq> 125) cs))
      else c # sub_unresolved cs)"
  by pat_completeness auto
termination
proof (relation "measure length")
  show "wf (measure length)" by simp
next
  fix c :: uchar and cs :: ustring
  have "length (tl (dropWhile (\<lambda>x. x \<noteq> 125) cs)) \<le> length cs"
    using length_dropWhile_le [of "\<lambda>x. x \<noteq> 125" cs] by simp
  then show "(tl (dropWhile (\<lambda>x. x \<noteq> 125) cs), c # cs) \<in> measure length" by simp
next
  fix c :: uchar and cs :: ustring
  show "(cs, c # cs) \<in> measure length" by simp
qed

definition apply_template :: "unicode \<Rightarrow> ustring \<Rightarrow> (ustring \<times> ustring) list \<Rightarrow> ustring" where
  "apply_template U template placeholders =
     (let result = foldl (\<lambda>result (key, val). py_replace ([123] @ key @ [125]) val result)
                     template placeholders;
          result = sub_unresolved result
      in py_strip U (py_strip_chars [92] (py_strip_chars [47] result)))"

definition build_destination_filename ::
  "unicode \<Rightarrow> platform \<Rightarrow> ustring \<Rightarrow> ExtractedData \<Rightarrow> config option \<Rightarrow> ustring \<times> ExtractedData" where
  "build_destination_filename U P modele_nom_fichier extr cfg =
     (case build_placeholders U P extr cfg of
        (placeholders, extr) \<Rightarrow>
          (let name = apply_template U modele_nom_fichier placeholders;
               name = (if \<not> py_endswith (uc_lower U name) (u ''.pdf'') then name @ u ''.pdf'' else name)
           in (name, extr)))"

text \<open>
  A platform for the examples: years of four digits, amounts cut to two decimals.
\<close>

definition example_platform :: platform where
  "example_platform = \<lparr>
     strftime_Y = (\<lambda>d. (if year d < 1000 then [48] else []) @ (if year d < 100 then [48] else [])
                     @ (if year d < 10 then [48] else []) @ str_nat (nat (year d))),
     format_2f = (\<lambda>x. str_nat (nat \<lfloor>x\<rfloor>) @ [46] @ two_digits (\<lfloor>x * 100\<rfloor> mod 100)) \<rparr>"


section \<open>Regular expressions (the part of \<open>re\<close> that extract.py uses)\<close>

text \<open>
  The module \<open>re\<close> is a backtracking matcher: alternatives are tried from left to right, a
  quantifier takes as much as it can and gives back one repetition at a time, and the first
  way through the whole pattern is the match. The patterns of extract.py need one
  character of a class, sequence, alternative, an optional part, the repetition of a
  one-character class, capturing groups and the word boundary.
\<close>

datatype rx =
    REps
  | RChar "uchar \<Rightarrow> bool"
  | RSeq rx rx
  | RAlt rx rx
  | ROpt rx
  | RRep nat "nat option" "uchar \<Rightarrow> bool"
  | RGroup nat rx
  | RWordB

text \<open>
  The state of a match in progress: the character before the position, the text from the
  position on, the number of characters consumed so far, and the groups captured so far.
\<close>

record mstate =
  ms_prev :: "uchar option"
  ms_rest :: ustring
  ms_pos :: nat
  ms_groups :: "(nat \<times> ustring) list"

definition advance :: "mstate \<Rightarrow> nat \<Rightarrow> mstate" where
  "advance s n =
     s\<lparr> ms_prev := (if n = 0 \<or> ms_rest s = [] then ms_prev s else Some (last (take n (ms_rest s)))),
        ms_rest := drop n (ms_rest s),
        ms_pos := ms_pos s + min n (length (ms_rest s)) \<rparr>"

definition at_boundary :: "unicode \<Rightarrow> mstate \<Rightarrow> bool" where
  "at_boundary U s =
     ((case ms_prev s of None \<Rightarrow> False | Some c \<Rightarrow> re_word U c)
      \<noteq> (case ms_rest s of [] \<Rightarrow> False | c # cs \<Rightarrow> re_word U c))"

text \<open>Greedy repetition: \<open>n\<close> characters, then \<open>n - 1\<close>, ... down to \<open>lo\<close>.\<close>

fun rep_try :: "(mstate \<Rightarrow> 'r option) \<Rightarrow> mstate \<Rightarrow> nat \<Rightarrow> nat \<Rightarrow> 'r option" where
  "rep_try k s lo 0 = (if lo = 0 then k s else None)"
| "rep_try k s lo (Suc n) =
     (if Suc n < lo then None
      else (case k (advance s (Suc n)) of Some r \<Rightarrow> Some r | None \<Rightarrow> rep_try k s lo n))"

definition set_group :: "nat \<Rightarrow> mstate \<Rightarrow> mstate \<Rightarrow> mstate" where
  "set_group i s s' =
     s'\<lparr> ms_groups := AList.update i (take (ms_pos s' - ms_pos s) (ms_rest s)) (ms_groups s') \<rparr>"

fun rx_match :: "unicode \<Rightarrow> rx \<Rightarrow> mstate \<Rightarrow> (mstate \<Rightarrow> 'r option) \<Rightarrow> 'r option" where
  "rx_match U REps s k = k s"
| "rx_match U (RChar p) s k =
     (case ms_rest s of [] \<Rightarrow> None | c # cs \<Rightarrow> (if p c then k (advance s 1) else None))"
| "rx_match U (RSeq a b) s k = rx_match U a s (\<lambda>s'. rx_match U b s' k)"
| "rx_match U (RAlt a b) s k =
     (case rx_match U a s k of Some r \<Rightarrow> Some r | None \<Rightarrow> rx_match U b s k)"
| "rx_match U (ROpt a) s k =
     (case rx_match U a s k of Some r \<Rightarrow> Some r | None \<Rightarrow> k s)"
| "rx_match U (RRep lo hi p) s k =
     (let run = length (takeWhile p (ms_rest s));
          most = (case hi of None \<Rightarrow> run | Some h \<Rightarrow> min run h)
      in rep_try k s lo most)"
| "rx_match U (RGroup i a) s k = rx_match U a s (\<lambda>s'. k (set_group i s s'))"
| "rx_match U RWordB s k = (if at_boundary U s then k s else None)"

text \<open>A match at the given position: the state at its end.\<close>

definition match_at :: "unicode \<Rightarrow> rx \<Rightarrow> uchar option \<Rightarrow> ustring \<Rightarrow> mstate option" where
  "match_at U r prev rest =
     rx_match U r \<lparr> ms_prev = prev, ms_rest = rest, ms_pos = 0, ms_groups = [] \<rparr> Some"

text \<open>
  \<open>pattern.finditer(text)\<close>: the matches from left to right without overlap, each given
  by its groups. The scan moves one character at a time and skips the characters of the
  match it has just found. \<open>pattern.search(text)\<close> is the first of them.
\<close>

fun finditer_scan :: "unicode \<Rightarrow> rx \<Rightarrow> uchar option \<Rightarrow> ustring \<Rightarrow> nat \<Rightarrow> (nat \<times> ustring) list list" where
  "finditer_scan U r prev [] skip =
     (if skip > 0 then []
      else (case match_at U r prev [] of None \<Rightarrow> [] | Some s \<Rightarrow> [ms_groups s]))"
| "finditer_scan U r prev (c # cs) skip =
     (if skip > 0 then finditer_scan U r (Some c) cs (skip - 1)
      else (case match_at U r prev (c # cs) of
              None \<Rightarrow> finditer_scan U r (Some c) cs 0
            | Some s \<Rightarrow> ms_groups s # finditer_scan U r (Some c) cs (ms_pos s - 1)))"

definition finditer :: "unicode \<Rightarrow> rx \<Rightarrow> ustring \<Rightarrow> (nat \<times> ustring) list list" where
  "finditer U r text = finditer_scan U r None text 0"

definition search :: "unicode \<Rightarrow> rx \<Rightarrow> ustring \<Rightarrow> (nat \<times> ustring) list option" where
  "search U r text = (case finditer U r text of [] \<Rightarrow> None | m # ms \<Rightarrow> Some m)"

text \<open>Pattern syntax: a literal string, with or without \<open>re.IGNORECASE\<close>; classes.\<close>

definition rx_chr :: "unicode \<Rightarrow> bool \<Rightarrow> uchar \<Rightarrow> rx" where
  "rx_chr U icase x = RChar (\<lambda>c. if icase then uc_ieq U x c else c = x)"

fun rx_lit :: "unicode \<Rightarrow> bool \<Rightarrow> ustring \<Rightarrow> rx" where
  "rx_lit U icase [] = REps"
| "rx_lit U icase [x] = rx_chr U icase x"
| "rx_lit U icase (x # xs) = RSeq (rx_chr U icase x) (rx_lit U icase xs)"

fun rx_seq :: "rx list \<Rightarrow> rx" where
  "rx_seq [] = REps"
| "rx_seq [r] = r"
| "rx_seq (r # rs) = RSeq r (rx_seq rs)"

fun rx_alt :: "rx list \<Rightarrow> rx" where
  "rx_alt [] = REps"
| "rx_alt [r] = r"
| "rx_alt (r # rs) = RAlt r (rx_alt rs)"

definition rx_one_of :: "unicode \<Rightarrow> bool \<Rightarrow> uchar list \<Rightarrow> rx" where
  "rx_one_of U icase xs = RChar (\<lambda>c. \<exists>x \<in> set xs. if icase then uc_ieq U x c else c = x)"


section \<open>Dates and amounts (extract.py)\<close>

definition rx_digit :: "unicode \<Rightarrow> uchar \<Rightarrow> bool" where
  "rx_digit U c = uc_isdecimal U c"

definition DATE_FR :: "unicode \<Rightarrow> rx" where
  "DATE_FR U =
     rx_seq [RWordB,
             RGroup 1 (RRep 1 (Some 2) (rx_digit U)),
             rx_one_of U False [47, 45, 46],
             RGroup 2 (RRep 1 (Some 2) (rx_digit U)),
             rx_one_of U False [47, 45, 46],
             RGroup 3 (RRep 2 (Some 4) (rx_digit U)),
             RWordB]"

definition DATE_ISO :: "unicode \<Rightarrow> rx" where
  "DATE_ISO U =
     rx_seq [RWordB,
             RGroup 1 (RSeq (rx_lit U False (u ''20'')) (RRep 2 (Some 2) (rx_digit U))),
             rx_one_of U False [47, 45],
             RGroup 2 (RRep 2 (Some 2) (rx_digit U)),
             rx_one_of U False [47, 45],
             RGroup 3 (RRep 2 (Some 2) (rx_digit U)),
             RWordB]"

definition MONTHS_FR :: "ustring list" where
  "MONTHS_FR =
     [u ''janvier'', u ''f'' @ [233] @ u ''vrier'', u ''mars'', u ''avril'', u ''mai'', u ''juin'',
      u ''juillet'', u ''ao'' @ [251] @ u ''t'', u ''septembre'', u ''octobre'', u ''novembre'',
      u ''d'' @ [233] @ u ''cembre'']"

definition DATE_FR_LONG :: "unicode \<Rightarrow> rx" where
  "DATE_FR_LONG U =
     rx_seq [RWordB,
             RGroup 1 (RRep 1 (Some 2) (rx_digit U)),
             RRep 1 None (uc_isspace U),
             RGroup 2 (rx_alt (map (rx_lit U True) MONTHS_FR)),
             RRep 1 None (uc_isspace U),
             RGroup 3 (RRep 4 (Some 4) (rx_digit U)),
             RWordB]"

text \<open>The amount itself, \<open>([\d\s]+[,\.]\d{2})\<close>, and the currency \<open>(?:\<euro>|eur|euros?)\<close>.\<close>

definition rx_amount :: "unicode \<Rightarrow> rx" where
  "rx_amount U =
     RGroup 1 (rx_seq [RRep 1 None (\<lambda>c. rx_digit U c \<or> uc_isspace U c),
                       rx_one_of U True [44, 46],
                       RRep 2 (Some 2) (rx_digit U)])"

definition rx_currency :: "unicode \<Rightarrow> rx" where
  "rx_currency U =
     rx_alt [rx_chr U True 8364, rx_lit U True (u ''eur''),
             RSeq (rx_lit U True (u ''euro'')) (ROpt (rx_chr U True 115))]"

definition MONTANT_TTC :: "unicode \<Rightarrow> rx" where
  "MONTANT_TTC U =
     rx_seq [rx_alt [rx_seq [rx_lit U True (u ''total''), RRep 1 None (uc_isspace U), rx_lit U True (u ''ttc'')],
                     rx_seq [rx_lit U True (u ''ttc''), RRep 0 None (uc_isspace U), ROpt (rx_chr U True 58)],
                     rx_seq [rx_lit U True (u ''montant''), RRep 1 None (uc_isspace U), rx_lit U True (u ''ttc'')],
                     rx_seq [rx_lit U True (u ''total''), RRep 1 None (uc_isspace U), rx_chr U True 224,
                             RRep 1 None (uc_isspace U), rx_lit U True (u ''payer'')]],
             RRep 0 None (uc_isspace U), ROpt (rx_chr U True 58), RRep 0 None (uc_isspace U),
             rx_amount U,
             RRep 0 None (uc_isspace U),
             ROpt (rx_currency U)]"

definition MONTANT_FALLBACK :: "unicode \<Rightarrow> rx" where
  "MONTANT_FALLBACK U =
     rx_seq [rx_amount U, RRep 0 None (uc_isspace U), rx_currency U, RWordB]"

text \<open>
  The exceptions that can come up, and the conversions. \<open>py_int\<close> is \<open>int(s)\<close> for a
  string of decimal digits; any other string is taken to raise \<open>ValueError\<close> (the patterns
  hand it digits only). \<open>m.group(i)\<close> is \<open>None\<close> for a group that took no part in the
  match, and \<open>int(None)\<close> raises \<open>TypeError\<close>.
\<close>

datatype py_error = ValueError | OverflowError | TypeError | AttributeError

definition digits_value :: "unicode \<Rightarrow> ustring \<Rightarrow> int" where
  "digits_value U s = foldl (\<lambda>a c. 10 * a + int (uc_digit U c)) 0 s"

definition py_int :: "unicode \<Rightarrow> ustring \<Rightarrow> py_error + int" where
  "py_int U s = (if s \<noteq> [] \<and> list_all (uc_isdecimal U) s then Inr (digits_value U s) else Inl ValueError)"

definition group_int :: "unicode \<Rightarrow> (nat \<times> ustring) list \<Rightarrow> nat \<Rightarrow> py_error + int" where
  "group_int U m i = (case map_of m i of None \<Rightarrow> Inl TypeError | Some g \<Rightarrow> py_int U g)"

text \<open>
  \<open>date(y, m, d)\<close>: an argument that does not fit a C \<open>int\<close> raises \<open>OverflowError\<close>, a
  combination that is not a day of the calendar raises \<open>ValueError\<close>.
\<close>

definition is_leap :: "int \<Rightarrow> bool" where
  "is_leap y = (y mod 4 = 0 \<and> (y mod 100 \<noteq> 0 \<or> y mod 400 = 0))"

definition days_in_month :: "int \<Rightarrow> int \<Rightarrow> int" where
  "days_in_month y m =
     (if m = 2 then (if is_leap y then 29 else 28)
      else if m = 4 \<or> m = 6 \<or> m = 9 \<or> m = 11 then 30 else 31)"

definition valid_date :: "int \<Rightarrow> int \<Rightarrow> int \<Rightarrow> bool" where
  "valid_date y m d = (1 \<le> y \<and> y \<le> 9999 \<and> 1 \<le> m \<and> m \<le> 12 \<and> 1 \<le> d \<and> d \<le> days_in_month y m)"

definition fits_c_int :: "int \<Rightarrow> bool" where
  "fits_c_int n = (- 2147483648 \<le> n \<and> n \<le> 2147483647)"

definition date_new :: "int \<Rightarrow> int \<Rightarrow> int \<Rightarrow> py_error + date" where
  "date_new y m d =
     (if \<not> (fits_c_int y \<and> fits_c_int m \<and> fits_c_int d) then Inl OverflowError
      else if valid_date y m d then Inr \<lparr> year = y, month = m, day = d \<rparr>
      else Inl ValueError)"

text \<open>\<open>try: return date(...) except ValueError: return None\<close>.\<close>

definition try_date :: "int \<Rightarrow> int \<Rightarrow> int \<Rightarrow> py_error + date option" where
  "try_date y m d =
     (case date_new y m d of
        Inr dt \<Rightarrow> Inr (Some dt)
      | Inl ValueError \<Rightarrow> Inr None
      | Inl e \<Rightarrow> Inl e)"

definition parse_fr_date :: "unicode \<Rightarrow> (nat \<times> ustring) list \<Rightarrow> py_error + date option" where
  "parse_fr_date U m =
     (case group_int U m 1 of Inl e \<Rightarrow> Inl e | Inr d \<Rightarrow>
      (case group_int U m 2 of Inl e \<Rightarrow> Inl e | Inr mth \<Rightarrow>
       (case group_int U m 3 of Inl e \<Rightarrow> Inl e | Inr y \<Rightarrow>
          (let y = (if y < 100 then y + 2000 else y) in try_date y mth d))))"

definition parse_iso_date :: "unicode \<Rightarrow> (nat \<times> ustring) list \<Rightarrow> py_error + date option" where
  "parse_iso_date U m =
     (case group_int U m 1 of Inl e \<Rightarrow> Inl e | Inr y \<Rightarrow>
      (case group_int U m 2 of Inl e \<Rightarrow> Inl e | Inr mth \<Rightarrow>
       (case group_int U m 3 of Inl e \<Rightarrow> Inl e | Inr d \<Rightarrow> try_date y mth d)))"

text \<open>\<open>MONTHS_FR.index(name)\<close>, with \<open>None\<close> for the \<open>ValueError\<close> of a missing name.\<close>

fun list_index :: "'a list \<Rightarrow> 'a \<Rightarrow> nat option" where
  "list_index [] x = None"
| "list_index (y # ys) x = (if y = x then Some 0 else map_option Suc (list_index ys x))"

definition parse_fr_long_date :: "unicode \<Rightarrow> (nat \<times> ustring) list \<Rightarrow> py_error + date option" where
  "parse_fr_long_date U m =
     (case group_int U m 1 of Inl e \<Rightarrow> Inl e | Inr dy \<Rightarrow>
      (case map_of m 2 of None \<Rightarrow> Inl AttributeError | Some g \<Rightarrow>
       (let month_name = uc_lower U g in
        case group_int U m 3 of Inl e \<Rightarrow> Inl e | Inr yr \<Rightarrow>
          (case list_index MONTHS_FR month_name of
             None \<Rightarrow> Inr None
           | Some i \<Rightarrow> try_date yr (int i + 1) dy))))"

text \<open>Dates compare as the triples of year, month and day.\<close>

definition date_le :: "date \<Rightarrow> date \<Rightarrow> bool" where
  "date_le a b =
     (year a < year b \<or> (year a = year b \<and> (month a < month b \<or> (month a = month b \<and> day a \<le> day b))))"

definition plausible :: "date \<Rightarrow> bool" where
  "plausible d =
     (date_le \<lparr> year = 2000, month = 1, day = 1 \<rparr> d \<and> date_le d \<lparr> year = 2030, month = 12, day = 31 \<rparr>)"

text \<open>
  The inner loop of \<open>extract_date\<close> over the matches of one pattern, and the outer loop over
  the patterns. \<open>Inl\<close> is an exception that leaves the function.
\<close>

fun match_loop ::
  "((nat \<times> ustring) list \<Rightarrow> py_error + date option) \<Rightarrow> (nat \<times> ustring) list list
     \<Rightarrow> py_error + date option" where
  "match_loop parse [] = Inr None"
| "match_loop parse (m # ms) =
     (case parse m of
        Inl e \<Rightarrow> Inl e
      | Inr None \<Rightarrow> match_loop parse ms
      | Inr (Some d) \<Rightarrow> (if plausible d then Inr (Some d) else match_loop parse ms))"

fun pattern_loop ::
  "unicode \<Rightarrow> ustring \<Rightarrow> (rx \<times> ((nat \<times> ustring) list \<Rightarrow> py_error + date option)) list
     \<Rightarrow> py_error + date option" where
  "pattern_loop U texte [] = Inr None"
| "pattern_loop U texte ((pattern, parse) # rest) =
     (case match_loop parse (finditer U pattern texte) of
        Inl e \<Rightarrow> Inl e
      | Inr (Some d) \<Rightarrow> Inr (Some d)
      | Inr None \<Rightarrow> pattern_loop U texte rest)"

definition extract_date :: "unicode \<Rightarrow> ustring \<Rightarrow> py_error + date option" where
  "extract_date U texte =
     pattern_loop U texte
       [(DATE_ISO U, parse_iso_date U), (DATE_FR U, parse_fr_date U),
        (DATE_FR_LONG U, parse_fr_long_date U)]"


definition normalize_amount :: "ustring \<Rightarrow> ustring" where
  "normalize_amount g = py_replace (u '','') (u ''.'') (py_replace (u '' '') [] g)"

text \<open>
  \<open>float(s)\<close> for the strings the amount pattern can give (digits, white space and one
  decimal point): white space is stripped at both ends, what is left is digits, a point
  and digits, one of the two runs of digits possibly empty; anything else raises
  \<open>ValueError\<close>. The value is the real number the text denotes.
\<close>

definition py_float :: "unicode \<Rightarrow> ustring \<Rightarrow> py_error + real" where
  "py_float U s =
     (let t = py_strip U s;
          a = takeWhile (\<lambda>c. c \<noteq> 46) t;
          b = dropWhile (\<lambda>c. c \<noteq> 46) t
      in if list_all (uc_isdecimal U) a \<and> b = [] \<and> a \<noteq> []
           then Inr (real_of_int (digits_value U a))
         else if list_all (uc_isdecimal U) a \<and> b \<noteq> [] \<and> list_all (uc_isdecimal U) (tl b)
                 \<and> (a \<noteq> [] \<or> tl b \<noteq> [])
           then Inr (real_of_int (digits_value U a)
                     + real_of_int (digits_value U (tl b)) / 10 ^ length (tl b))
         else Inl ValueError)"

text \<open>
  \<open>float(m.group(1).replace(" ", "").replace(",", "."))\<close> under \<open>try ... except ValueError\<close>:
  \<open>Inr None\<close> stands for the \<open>ValueError\<close> that was caught.
\<close>

definition try_amount :: "unicode \<Rightarrow> (nat \<times> ustring) list \<Rightarrow> py_error + real option" where
  "try_amount U m =
     (case map_of m 1 of
        None \<Rightarrow> Inl AttributeError
      | Some g \<Rightarrow>
          (case py_float U (normalize_amount g) of
             Inr v \<Rightarrow> Inr (Some v)
           | Inl ValueError \<Rightarrow> Inr None
           | Inl e \<Rightarrow> Inl e))"

text \<open>The loop over \<open>reversed(list(MONTANT_FALLBACK.finditer(texte)))\<close>.\<close>

fun amount_loop :: "unicode \<Rightarrow> (nat \<times> ustring) list list \<Rightarrow> py_error + real option" where
  "amount_loop U [] = Inr None"
| "amount_loop U (m # ms) =
     (case try_amount U m of
        Inl e \<Rightarrow> Inl e
      | Inr (Some v) \<Rightarrow> Inr (Some v)
      | Inr None \<Rightarrow> amount_loop U ms)"

definition extract_montant_ttc :: "unicode \<Rightarrow> ustring \<Rightarrow> py_error + real option" where
  "extract_montant_ttc U texte =
     (let fallback = amount_loop U (rev (finditer U (MONTANT_FALLBACK U) texte)) in
      case search U (MONTANT_TTC U) texte of
        None \<Rightarrow> fallback
      | Some m \<Rightarrow>
          (case try_amount U m of
             Inl e \<Rightarrow> Inl e
           | Inr (Some v) \<Rightarrow> Inr (Some v)
           | Inr None \<Rightarrow> fallback))"

section \<open>What a match is\<close>

text \<open>
  \<open>rx_sem U r s s'\<close>: the pattern \<open>r\<close> can take the matcher from the state \<open>s\<close> to the state
  \<open>s'\<close>. Every result of the backtracking matcher is of this kind.
\<close>

primrec rx_sem :: "unicode \<Rightarrow> rx \<Rightarrow> mstate \<Rightarrow> mstate \<Rightarrow> bool" where
  "rx_sem U REps s s' = (s' = s)"
| "rx_sem U (RChar p) s s' = (\<exists>c cs. ms_rest s = c # cs \<and> p c \<and> s' = advance s 1)"
| "rx_sem U (RSeq a b) s s' = (\<exists>m. rx_sem U a s m \<and> rx_sem U b m s')"
| "rx_sem U (RAlt a b) s s' = (rx_sem U a s s' \<or> rx_sem U b s s')"
| "rx_sem U (ROpt a) s s' = (rx_sem U a s s' \<or> s' = s)"
| "rx_sem U (RRep lo hi p) s s' =
     (\<exists>n. lo \<le> n \<and> n \<le> length (takeWhile p (ms_rest s))
          \<and> (case hi of None \<Rightarrow> True | Some h \<Rightarrow> n \<le> h) \<and> s' = advance s n)"
| "rx_sem U (RGroup i a) s s' = (\<exists>m. rx_sem U a s m \<and> s' = set_group i s m)"
| "rx_sem U RWordB s s' = (at_boundary U s \<and> s' = s)"

text \<open>
  Facts read off a pattern: the groups it has, a property of every character it consumes,
  the least and the greatest number of characters it consumes, and
  \<open>rx_sets i q lo hi r\<close>: every match of \<open>r\<close> sets the group \<open>i\<close> to a text whose characters
  satisfy \<open>q\<close> and whose length is at least \<open>lo\<close> and at most \<open>hi\<close>.
\<close>

primrec rx_groups :: "rx \<Rightarrow> nat set" where
  "rx_groups REps = {}"
| "rx_groups (RChar p) = {}"
| "rx_groups (RSeq a b) = rx_groups a \<union> rx_groups b"
| "rx_groups (RAlt a b) = rx_groups a \<union> rx_groups b"
| "rx_groups (ROpt a) = rx_groups a"
| "rx_groups (RRep lo hi p) = {}"
| "rx_groups (RGroup i a) = insert i (rx_groups a)"
| "rx_groups RWordB = {}"

primrec rx_all :: "(uchar \<Rightarrow> bool) \<Rightarrow> rx \<Rightarrow> bool" where
  "rx_all q REps = True"
| "rx_all q (RChar p) = (\<forall>c. p c \<longrightarrow> q c)"
| "rx_all q (RSeq a b) = (rx_all q a \<and> rx_all q b)"
| "rx_all q (RAlt a b) = (rx_all q a \<and> rx_all q b)"
| "rx_all q (ROpt a) = rx_all q a"
| "rx_all q (RRep lo hi p) = (\<forall>c. p c \<longrightarrow> q c)"
| "rx_all q (RGroup i a) = rx_all q a"
| "rx_all q RWordB = True"

primrec rx_minlen :: "rx \<Rightarrow> nat" where
  "rx_minlen REps = 0"
| "rx_minlen (RChar p) = 1"
| "rx_minlen (RSeq a b) = rx_minlen a + rx_minlen b"
| "rx_minlen (RAlt a b) = min (rx_minlen a) (rx_minlen b)"
| "rx_minlen (ROpt a) = 0"
| "rx_minlen (RRep lo hi p) = lo"
| "rx_minlen (RGroup i a) = rx_minlen a"
| "rx_minlen RWordB = 0"

fun opt_add :: "nat option \<Rightarrow> nat option \<Rightarrow> nat option" where
  "opt_add (Some a) (Some b) = Some (a + b)"
| "opt_add a b = None"

fun opt_max :: "nat option \<Rightarrow> nat option \<Rightarrow> nat option" where
  "opt_max (Some a) (Some b) = Some (max a b)"
| "opt_max a b = None"

fun opt_le :: "nat option \<Rightarrow> nat option \<Rightarrow> bool" where
  "opt_le a None = True"
| "opt_le None (Some h) = False"
| "opt_le (Some a) (Some h) = (a \<le> h)"

primrec rx_maxlen :: "rx \<Rightarrow> nat option" where
  "rx_maxlen REps = Some 0"
| "rx_maxlen (RChar p) = Some 1"
| "rx_maxlen (RSeq a b) = opt_add (rx_maxlen a) (rx_maxlen b)"
| "rx_maxlen (RAlt a b) = opt_max (rx_maxlen a) (rx_maxlen b)"
| "rx_maxlen (ROpt a) = rx_maxlen a"
| "rx_maxlen (RRep lo hi p) = hi"
| "rx_maxlen (RGroup i a) = rx_maxlen a"
| "rx_maxlen RWordB = Some 0"

primrec rx_sets :: "nat \<Rightarrow> (uchar \<Rightarrow> bool) \<Rightarrow> nat \<Rightarrow> nat option \<Rightarrow> rx \<Rightarrow> bool" where
  "rx_sets i q lo hi REps = False"
| "rx_sets i q lo hi (RChar p) = False"
| "rx_sets i q lo hi (RSeq a b) = ((rx_sets i q lo hi a \<and> i \<notin> rx_groups b) \<or> rx_sets i q lo hi b)"
| "rx_sets i q lo hi (RAlt a b) = (rx_sets i q lo hi a \<and> rx_sets i q lo hi b)"
| "rx_sets i q lo hi (ROpt a) = False"
| "rx_sets i q lo hi (RRep l h p) = False"
| "rx_sets i q lo hi (RGroup j a) =
     (if j = i then rx_all q a \<and> lo \<le> rx_minlen a \<and> opt_le (rx_maxlen a) hi
      else rx_sets i q lo hi a)"
| "rx_sets i q lo hi RWordB = False"

text \<open>
  What the proofs need of the table of digits, true of Unicode: the ASCII digits are
  decimal digits, and the value of a decimal digit is below 10.
\<close>

definition digit_tables :: "unicode \<Rightarrow> bool" where
  "digit_tables U \<longleftrightarrow>
     (\<forall>c. 48 \<le> c \<and> c \<le> 57 \<longrightarrow> uc_isdecimal U c)
     \<and> (\<forall>c. uc_isdecimal U c \<longrightarrow> uc_digit U c < 10)"

text \<open>
  The date a match stands for, as the specification words it: the calendar date of the
  three numbers when there is one, a two-digit year counting from 2000; and the first
  plausible date of a list of candidates.
\<close>

definition group_value :: "unicode \<Rightarrow> (nat \<times> ustring) list \<Rightarrow> nat \<Rightarrow> int" where
  "group_value U m i = digits_value U (or_empty (map_of m i))"

definition calendar_date :: "int \<Rightarrow> int \<Rightarrow> int \<Rightarrow> date option" where
  "calendar_date y m d = (if valid_date y m d then Some \<lparr> year = y, month = m, day = d \<rparr> else None)"

definition spec_iso :: "unicode \<Rightarrow> (nat \<times> ustring) list \<Rightarrow> date option" where
  "spec_iso U m = calendar_date (group_value U m 1) (group_value U m 2) (group_value U m 3)"

definition spec_fr :: "unicode \<Rightarrow> (nat \<times> ustring) list \<Rightarrow> date option" where
  "spec_fr U m =
     calendar_date (if group_value U m 3 < 100 then group_value U m 3 + 2000 else group_value U m 3)
       (group_value U m 2) (group_value U m 1)"

definition spec_long :: "unicode \<Rightarrow> (nat \<times> ustring) list \<Rightarrow> date option" where
  "spec_long U m =
     (case list_index MONTHS_FR (uc_lower U (or_empty (map_of m 2))) of
        None \<Rightarrow> None
      | Some i \<Rightarrow> calendar_date (group_value U m 3) (int i + 1) (group_value U m 1))"

definition date_candidates :: "unicode \<Rightarrow> ustring \<Rightarrow> date option list" where
  "date_candidates U texte =
     map (spec_iso U) (finditer U (DATE_ISO U) texte)
     @ map (spec_fr U) (finditer U (DATE_FR U) texte)
     @ map (spec_long U) (finditer U (DATE_FR_LONG U) texte)"

fun first_plausible :: "date option list \<Rightarrow> date option" where
  "first_plausible [] = None"
| "first_plausible (None # xs) = first_plausible xs"
| "first_plausible (Some d # xs) = (if plausible d then Some d else first_plausible xs)"


section \<open>Proofs: document type\<close>

lemma u_eq_Nil [simp]: "u s = [] \<longleftrightarrow> s = []"
  by (simp add: u_def)

lemma u_Nil [simp]: "u [] = []"
  by (simp add: u_def)

lemma py_in_iff: "py_in k s \<longleftrightarrow> occurs_in k s"
proof (induction s)
  case Nil
  show ?case by (auto simp: occurs_in_def)
next
  case (Cons c cs)
  show ?case
  proof
    assume "py_in k (c # cs)"
    then consider "prefix k (c # cs)" | "py_in k cs" by auto
    then show "occurs_in k (c # cs)"
    proof cases
      case 1
      then obtain q where "c # cs = k @ q" by (auto simp: prefix_def)
      then have "c # cs = [] @ k @ q" by simp
      then show ?thesis unfolding occurs_in_def by blast
    next
      case 2
      with Cons obtain p q where "cs = p @ k @ q" by (auto simp: occurs_in_def)
      then have "c # cs = (c # p) @ k @ q" by simp
      then show ?thesis unfolding occurs_in_def by blast
    qed
  next
    assume "occurs_in k (c # cs)"
    then obtain p q where pq: "c # cs = p @ k @ q" by (auto simp: occurs_in_def)
    show "py_in k (c # cs)"
    proof (cases p)
      case Nil
      with pq have "prefix k (c # cs)" by (simp add: prefix_def)
      then show ?thesis by simp
    next
      case (Cons a p')
      with pq have "cs = p' @ k @ q" by simp
      then have "occurs_in k cs" unfolding occurs_in_def by blast
      with Cons.IH show ?thesis by simp
    qed
  qed
qed

lemma kw_loop_iff: "kw_loop ks s \<longleftrightarrow> (\<exists>k \<in> set ks. occurs_in k s)"
  by (induction ks) (auto simp: py_in_iff)

lemma kw_loop_hits: "kw_loop ks (uc_lower U texte) \<longleftrightarrow> hits U ks texte"
  by (simp add: kw_loop_iff hits_def)

text \<open>
  C5. The document type is decided by a fixed ladder over the lower-cased text: the
  credit-note keywords first, then invoice, quote, correspondence, drawing/plan and tax
  keywords; the first class with a keyword occurring in the text wins and no hit gives
  "inconnu". In particular a text with both credit-note and invoice vocabulary is an
  "avoir".
\<close>

theorem extract_type_document_ladder:
  "extract_type_document U texte =
     (if hits U KEYWORDS_AVOIR texte then u ''avoir''
      else if hits U KEYWORDS_FACTURE texte then u ''facture_fournisseur''
      else if hits U KEYWORDS_DEVIS texte then u ''devis''
      else if hits U KEYWORDS_COURRIER texte then u ''courrier''
      else if hits U KEYWORDS_PLAN texte then u ''plan''
      else if hits U KEYWORDS_IMPOTS texte then u ''impots''
      else u ''inconnu'')
   \<and> (hits U KEYWORDS_AVOIR texte \<and> hits U KEYWORDS_FACTURE texte
        \<longrightarrow> extract_type_document U texte = u ''avoir'')"
  by (simp add: extract_type_document_def Let_def kw_loop_hits)


theorem extract_type_document_ladder_witness:
  "hits ascii_unicode KEYWORDS_AVOIR (u ''Avoir sur Facture 12'')
   \<and> hits ascii_unicode KEYWORDS_FACTURE (u ''Avoir sur Facture 12'')
   \<and> extract_type_document ascii_unicode (u ''Avoir sur Facture 12'') = u ''avoir''"
proof -
  have a: "kw_loop KEYWORDS_AVOIR (uc_lower ascii_unicode (u ''Avoir sur Facture 12''))"
    by code_simp
  have f: "kw_loop KEYWORDS_FACTURE (uc_lower ascii_unicode (u ''Avoir sur Facture 12''))"
    by code_simp
  from a f have h: "hits ascii_unicode KEYWORDS_AVOIR (u ''Avoir sur Facture 12'')
      \<and> hits ascii_unicode KEYWORDS_FACTURE (u ''Avoir sur Facture 12'')"
    by (simp add: kw_loop_hits)
  with extract_type_document_ladder [of ascii_unicode "u ''Avoir sur Facture 12''"]
  show ?thesis by blast
qed

section \<open>Proofs: confidence\<close>








section \<open>Proofs: paths and collision-safe names\<close>

lemma str_nat_nonempty: "str_nat n \<noteq> []"
  by (subst str_nat.simps) simp

lemma str_nat_inj: "str_nat n = str_nat m \<Longrightarrow> n = m"
proof (induction n arbitrary: m rule: str_nat.induct)
  case (1 n)
  show ?case
  proof (cases "n < 10")
    case True
    then have n: "str_nat n = [48 + n]" by (subst str_nat.simps) simp
    show ?thesis
    proof (cases "m < 10")
      case True
      then have "str_nat m = [48 + m]" by (subst str_nat.simps) simp
      with n "1.prems" show ?thesis by simp
    next
      case False
      then have "str_nat m = str_nat (m div 10) @ [48 + m mod 10]" by (subst str_nat.simps) simp
      with n "1.prems" have "str_nat (m div 10) = []" by simp
      then show ?thesis by (simp add: str_nat_nonempty)
    qed
  next
    case False
    then have n: "str_nat n = str_nat (n div 10) @ [48 + n mod 10]" by (subst str_nat.simps) simp
    show ?thesis
    proof (cases "m < 10")
      case True
      then have "str_nat m = [48 + m]" by (subst str_nat.simps) simp
      with n "1.prems" have "str_nat (n div 10) = []" by simp
      then show ?thesis by (simp add: str_nat_nonempty)
    next
      case m: False
      then have "str_nat m = str_nat (m div 10) @ [48 + m mod 10]" by (subst str_nat.simps) simp
      with n "1.prems" have e: "str_nat (n div 10) = str_nat (m div 10)" "n mod 10 = m mod 10" by simp_all
      from "1.IH" [OF False e(1)] have "n div 10 = m div 10" .
      with e(2) show ?thesis by (metis div_mult_mod_eq)
    qed
  qed
qed

lemma str_nat_no_sep: "47 \<notin> set (str_nat n)"
proof (induction n rule: str_nat.induct)
  case (1 n)
  show ?case
  proof (cases "n < 10")
    case True
    then show ?thesis by (subst str_nat.simps) simp
  next
    case False
    with 1 show ?thesis by (subst str_nat.simps) simp
  qed
qed

lemma py_split_no_sep: "d \<notin> set s \<Longrightarrow> py_split d s = [s]"
  by (induction s) auto

lemma path_parts_simple:
  "47 \<notin> set s \<Longrightarrow> s \<noteq> [] \<Longrightarrow> s \<noteq> [46] \<Longrightarrow> path_parts s = [s]"
  by (simp add: path_parts_def py_split_no_sep)

lemma path_root_no_sep: "47 \<notin> set s \<Longrightarrow> path_root s = []"
  by (cases s) (auto simp: path_root_def)

lemma joinpath_simple:
  "47 \<notin> set s \<Longrightarrow> s \<noteq> [] \<Longrightarrow> s \<noteq> [46] \<Longrightarrow> joinpath p s = p @ [s]"
  by (simp add: joinpath_def path_root_no_sep path_parts_simple)

lemma py_split_parts_no_sep: "w \<in> set (py_split d s) \<Longrightarrow> d \<notin> set w"
proof (induction s arbitrary: w)
  case Nil
  then show ?case by simp
next
  case (Cons c cs)
  show ?case
  proof (cases "c = d")
    case True
    with Cons show ?thesis by auto
  next
    case False
    show ?thesis
    proof (cases "py_split d cs")
      case Nil
      with Cons.prems False show ?thesis by simp
    next
      case (Cons x xs)
      with Cons.prems False have "w = c # x \<or> w \<in> set xs" by simp
      then show ?thesis
        using Cons.IH [of x] Cons.IH [of w] Cons False by auto
    qed
  qed
qed

lemma path_parts_no_sep: "w \<in> set (path_parts s) \<Longrightarrow> 47 \<notin> set w"
  by (auto simp: path_parts_def dest: py_split_parts_no_sep)

lemma wf_path_append: "wf_path p \<Longrightarrow> \<forall>x \<in> set q. 47 \<notin> set x \<Longrightarrow> wf_path (p @ q)"
  by (cases p; cases q) (auto simp: wf_path_def)

lemma wf_path_Path: "wf_path (Path s)"
proof -
  have "wf_path (path_root s)" by (simp add: wf_path_def path_root_def is_root_def)
  then show ?thesis unfolding Path_def
    by (rule wf_path_append) (auto dest: path_parts_no_sep)
qed

lemma wf_path_joinpath: "wf_path p \<Longrightarrow> wf_path (joinpath p s)"
  by (auto simp: joinpath_def wf_path_Path intro!: wf_path_append dest: path_parts_no_sep)

lemma wf_path_name: "wf_path p \<Longrightarrow> 47 \<notin> set (path_name p)"
proof -
  assume wf: "wf_path p"
  show ?thesis
  proof (cases p)
    case Nil
    then show ?thesis by (simp add: path_name_def)
  next
    case (Cons c cs)
    show ?thesis
    proof (cases cs)
      case Nil
      with Cons wf show ?thesis by (auto simp: path_name_def wf_path_def)
    next
      case (Cons d ds)
      with \<open>p = c # cs\<close> wf have "47 \<notin> set (last cs)" by (auto simp: wf_path_def)
      with Cons \<open>p = c # cs\<close> show ?thesis by (simp add: path_name_def)
    qed
  qed
qed

lemma path_stem_subset: "set (path_stem p) \<subseteq> set (path_name p)"
  by (auto simp: path_stem_def Let_def split: option.splits dest: in_set_takeD)

lemma path_suffix_subset: "set (path_suffix p) \<subseteq> set (path_name p)"
  by (auto simp: path_suffix_def Let_def split: option.splits dest: in_set_dropD)


lemma candidate_simple:
  assumes "47 \<notin> set stem" "47 \<notin> set sfx"
  shows "joinpath d (candidate_name stem sfx i) = d @ [candidate_name stem sfx i]"
proof -
  have 1: "47 \<notin> set (candidate_name stem sfx i)"
    using assms by (simp add: candidate_name_def str_nat_no_sep)
  have 2: "candidate_name stem sfx i \<noteq> []" by (simp add: candidate_name_def)
  have "2 \<le> length (candidate_name stem sfx i)"
    using str_nat_nonempty [of i] by (cases "str_nat i") (simp_all add: candidate_name_def)
  then have 3: "candidate_name stem sfx i \<noteq> [46]" by auto
  from 1 2 3 show ?thesis by (rule joinpath_simple)
qed

lemma candidate_name_inj: "candidate_name stem sfx i = candidate_name stem sfx j \<Longrightarrow> i = j"
  by (simp add: candidate_name_def str_nat_inj)

lemma fs_exists_subset: "{p. fs_exists fs p} \<subseteq> {[], [[47]], [[47, 47]]} \<union> fst ` set fs"
proof
  fix p assume "p \<in> {p. fs_exists fs p}"
  then have "fs_is_dir fs p \<or> fs_is_file fs p" by (simp add: fs_exists_def)
  then show "p \<in> {[], [[47]], [[47, 47]]} \<union> fst ` set fs"
  proof
    assume "fs_is_dir fs p"
    then consider "p = []" | "length p = 1 \<and> is_root (hd p)" | "map_of fs p = Some Dir"
      by (auto simp: fs_is_dir_def)
    then show ?thesis
    proof cases
      case 2
      then obtain c where "p = [c]" "is_root c" by (cases p) auto
      then show ?thesis by (auto simp: is_root_def)
    next
      case 3
      then show ?thesis by (auto dest: map_of_SomeD intro: rev_image_eqI)
    qed simp
  next
    assume "fs_is_file fs p"
    then obtain c where "map_of fs p = Some (File c)"
      by (auto simp: fs_is_file_def split: option.splits node.splits)
    then show ?thesis by (auto dest: map_of_SomeD intro: rev_image_eqI)
  qed
qed

lemma finite_fs_exists: "finite {p. fs_exists fs p}"
  by (rule finite_subset [OF fs_exists_subset]) simp

lemma free_candidate:
  assumes inj: "\<And>a b. cand a = cand b \<Longrightarrow> a = (b::nat)"
  shows "\<exists>j \<ge> i. \<not> fs_exists fs (cand j)"
proof (rule ccontr)
  assume "\<not> ?thesis"
  then have all: "\<And>j. i \<le> j \<Longrightarrow> fs_exists fs (cand j)" by auto
  have "inj_on cand {i..}" using inj by (auto simp: inj_on_def)
  moreover have "cand ` {i..} \<subseteq> {p. fs_exists fs p}" using all by auto
  ultimately have "finite {i..}" using finite_fs_exists
    by (metis finite_imageD finite_subset)
  then show False using infinite_Ici by blast
qed

lemma unique_loop_finds:
  assumes "\<not> fs_exists fs (joinpath d (candidate_name stem sfx j))"
    and "\<forall>k. i \<le> k \<and> k < j \<longrightarrow> fs_exists fs (joinpath d (candidate_name stem sfx k))"
    and "i \<le> j"
  shows "unique_loop fs d stem sfx i = Some (joinpath d (candidate_name stem sfx j))"
  using assms
proof (induction "j - i" arbitrary: i)
  case 0
  then have "i = j" by simp
  with 0 show ?case by (subst unique_loop.simps) (simp add: Let_def)
next
  case (Suc n)
  then have lt: "i < j" by simp
  with Suc.prems have ex: "fs_exists fs (joinpath d (candidate_name stem sfx i))" by simp
  have "unique_loop fs d stem sfx (i + 1) = Some (joinpath d (candidate_name stem sfx j))"
    using Suc lt by (intro Suc.hyps) auto
  with ex show ?case by (subst unique_loop.simps) (simp add: Let_def)
qed

lemma unique_loop_total:
  assumes "47 \<notin> set stem" "47 \<notin> set sfx"
  shows "\<exists>j \<ge> i. unique_loop fs d stem sfx i = Some (d @ [candidate_name stem sfx j])
      \<and> \<not> fs_exists fs (d @ [candidate_name stem sfx j])
      \<and> (\<forall>k. i \<le> k \<and> k < j \<longrightarrow> fs_exists fs (d @ [candidate_name stem sfx k]))"
proof -
  let ?c = "\<lambda>j. d @ [candidate_name stem sfx j]"
  have c: "\<And>j. joinpath d (candidate_name stem sfx j) = ?c j"
    using assms by (rule candidate_simple)
  have "\<exists>j \<ge> i. \<not> fs_exists fs (?c j)"
    by (rule free_candidate) (auto dest: candidate_name_inj)
  then obtain j0 where j0: "i \<le> j0" "\<not> fs_exists fs (?c j0)" by blast
  define j where "j = (LEAST j. i \<le> j \<and> \<not> fs_exists fs (?c j))"
  have j: "i \<le> j \<and> \<not> fs_exists fs (?c j)"
    unfolding j_def by (rule LeastI [of _ j0]) (use j0 in simp)
  have least: "\<And>k. i \<le> k \<Longrightarrow> k < j \<Longrightarrow> fs_exists fs (?c k)"
    unfolding j_def using not_less_Least by blast
  have "unique_loop fs d stem sfx i = Some (joinpath d (candidate_name stem sfx j))"
    by (rule unique_loop_finds) (use j least c in auto)
  with j least c show ?thesis by auto
qed








lemma map_of_mk_step:
  "map_of (mk_step fs q) p = (if p = q \<and> \<not> fs_is_dir fs q then Some Dir else map_of fs p)"
  by (simp add: mk_step_def update_conv')

lemma is_dir_mk_step: "fs_is_dir (mk_step fs q) p \<longleftrightarrow> fs_is_dir fs p \<or> p = q"
  by (auto simp: fs_is_dir_def map_of_mk_step)

lemma map_of_foldl_mk:
  "map_of (foldl mk_step fs qs) p =
     (if p \<in> set qs \<and> \<not> fs_is_dir fs p then Some Dir else map_of fs p)"
proof (induction qs arbitrary: fs)
  case Nil
  show ?case by simp
next
  case (Cons q qs)
  show ?case
    by (auto simp: Cons.IH map_of_mk_step is_dir_mk_step fs_is_dir_def)
qed

lemma mkdir_parents_ok:
  assumes "\<forall>q \<in> set (prefixes d). \<not> fs_is_file fs q"
  shows "\<exists>fs1. mkdir_parents fs d = Inr fs1
     \<and> (\<forall>p. map_of fs1 p = (if p \<in> set (prefixes d) \<and> \<not> fs_is_dir fs p then Some Dir else map_of fs p))"
proof -
  have "mkdir_parents fs d = Inr (foldl mk_step fs (prefixes d))"
    using assms by (simp add: mkdir_parents_def)
  then show ?thesis by (simp add: map_of_foldl_mk)
qed







lemma unique_path_spec:
  assumes wf: "wf_path d"
  shows "\<exists>r. unique_path fs d base = Some r \<and> \<not> fs_exists fs r
     \<and> (\<not> fs_exists fs (joinpath d base) \<longrightarrow> r = joinpath d base)
     \<and> (fs_exists fs (joinpath d base) \<longrightarrow>
          (\<exists>i \<ge> 1. r = d @ [candidate_name (path_stem (joinpath d base)) (path_suffix (joinpath d base)) i]
             \<and> (\<forall>k. 1 \<le> k \<and> k < i \<longrightarrow>
                  fs_exists fs (d @ [candidate_name (path_stem (joinpath d base)) (path_suffix (joinpath d base)) k]))))"
proof (cases "fs_exists fs (joinpath d base)")
  case False
  then show ?thesis by (simp add: unique_path_def Let_def)
next
  case True
  let ?dest = "joinpath d base"
  have "47 \<notin> set (path_name ?dest)" using wf by (intro wf_path_name wf_path_joinpath)
  then have ns: "47 \<notin> set (path_stem ?dest)" "47 \<notin> set (path_suffix ?dest)"
    using path_stem_subset [of ?dest] path_suffix_subset [of ?dest] by auto
  from unique_loop_total [OF ns, of 1 fs d] True show ?thesis
    by (auto simp: unique_path_def Let_def)
qed












section \<open>Proofs: move_to_destination\<close>

lemma mkdir_parents_keeps_files:
  assumes "mkdir_parents fs d = Inr fs1"
  shows "fs_is_file fs1 p \<longleftrightarrow> fs_is_file fs p"
proof -
  from assms have pre: "\<forall>q \<in> set (prefixes d). \<not> fs_is_file fs q"
    by (auto simp: mkdir_parents_def split: if_splits)
  from mkdir_parents_ok [OF pre] assms
  have m1: "\<And>p. map_of fs1 p =
      (if p \<in> set (prefixes d) \<and> \<not> fs_is_dir fs p then Some Dir else map_of fs p)"
    by auto
  have dir1: "\<And>p. fs_is_dir fs1 p \<longleftrightarrow> fs_is_dir fs p \<or> p \<in> set (prefixes d)"
    by (auto simp: fs_is_dir_def m1)
  show ?thesis
    using pre by (auto simp: fs_is_file_def dir1 m1 split: option.splits node.splits)
qed

lemma py_str_exn_nonempty: "py_str_exn e \<noteq> []"
  by (cases e) (simp add: u_def)

text \<open>
  What holds of every move: it returns; when it reports \<open>moved = False\<close> outside a dry run,
  the error is a non-empty string and the source file is still in place; and when no
  \<open>resolve\<close> call raises, \<open>moved = True\<close> comes with an empty error.
\<close>

lemma move_to_destination_returns:
  assumes "wf_path d"
  shows "\<exists>fs' r. move_to_destination F fs s d n e dry = Some (fs', r)"
proof -
  have "\<And>fs1. \<exists>q. unique_path fs1 d n = Some q"
    using unique_path_spec [OF assms] by blast
  then show ?thesis
    by (auto simp: move_to_destination_def Let_def split: sum.splits option.splits)
       (metis option.distinct(1))+
qed

lemma move_failure_captured:
  assumes "move_to_destination F fs s d n e False = Some (fs', r)" "\<not> moved r"
  shows "(\<exists>msg. error r = Some msg \<and> msg \<noteq> []) \<and> (fs_is_file fs s \<longrightarrow> fs_is_file fs' s)"
  using assms
  by (auto simp: move_to_destination_def Let_def ensure_dir_def py_str_exn_nonempty u_def
      mkdir_parents_keeps_files split: if_splits sum.splits option.splits)

lemma move_without_resolve_fault:
  assumes "move_to_destination F fs s d n e dry = Some (fs', r)" "moved r"
    "\<forall>p. resolve_fault F p = None"
  shows "error r = None"
  using assms
  by (auto simp: move_to_destination_def Let_def resolve_def split: if_splits sum.splits option.splits)

text \<open>
  C1. The two \<open>resolve()\<close> calls that build the log line stand inside the \<open>try\<close> block,
  after \<open>result.moved = True\<close>. When one of them raises, the \<open>except\<close> branch stores the
  message on a result that already says \<open>moved = True\<close>: the move of \<open>/in/a.pdf\<close> to
  \<open>/out/x.pdf\<close> under \<open>example_faults\<close> returns \<open>moved = True\<close> together with a non-empty
  error, the source is gone and the file is at its destination.
\<close>

theorem move_to_destination_moved_with_error:
  "(case move_to_destination example_faults example_fs [[47], u ''in'', u ''a.pdf''] example_dest
           (u ''x.pdf'') example_full False of
      None \<Rightarrow> False
    | Some (fs', r) \<Rightarrow>
        moved r
        \<and> error r = Some (u ''[Errno 64] The specified network name is no longer available'')
        \<and> \<not> fs_exists fs' [[47], u ''in'', u ''a.pdf'']
        \<and> map_of fs' [[47], u ''out'', u ''x.pdf''] = Some (File (u ''A'')))"
  by code_simp

section \<open>Proofs: the watcher\<close>













section \<open>Proofs: supplier resolution\<close>

lemma first_max_None: "first_max f xs = None \<longleftrightarrow> xs = []"
  by (cases xs) (auto split: option.splits)

lemma first_max_split:
  "first_max f xs = Some x \<Longrightarrow>
     \<exists>pre post. xs = pre @ x # post \<and> (\<forall>y \<in> set pre. f y < f x) \<and> (\<forall>y \<in> set post. f y \<le> f x)"
proof (induction xs arbitrary: x)
  case Nil
  then show ?case by simp
next
  case (Cons a xs)
  show ?case
  proof (cases "first_max f xs")
    case None
    then have "xs = []" by (simp add: first_max_None)
    with Cons.prems None have "a # xs = [] @ x # [] \<and> (\<forall>y \<in> set []. f y < f x)
        \<and> (\<forall>y \<in> set []. f y \<le> f x)" by simp
    then show ?thesis by blast
  next
    case (Some y)
    from Cons.IH [OF Some] obtain pre post where
      s: "xs = pre @ y # post" "\<forall>z \<in> set pre. f z < f y" "\<forall>z \<in> set post. f z \<le> f y" by blast
    show ?thesis
    proof (cases "f a < f y")
      case True
      with Cons.prems Some have "x = y" by simp
      with s True have "a # xs = (a # pre) @ x # post \<and> (\<forall>z \<in> set (a # pre). f z < f x)
          \<and> (\<forall>z \<in> set post. f z \<le> f x)" by auto
      then show ?thesis by blast
    next
      case False
      with Cons.prems Some have "x = a" by simp
      with s False have "a # xs = [] @ x # xs \<and> (\<forall>z \<in> set []. f z < f x)
          \<and> (\<forall>z \<in> set xs. f z \<le> f x)" by fastforce
      then show ?thesis by blast
    qed
  qed
qed

lemma fuzzy_step:
  "fuzzy_loop U fz raw c ((a, v) # rest) (br, bv) =
     fuzzy_loop U fz raw c rest
       (if real_of_int c \<le> alias_score U fz raw (a, v) \<and> br < alias_score U fz raw (a, v)
        then (alias_score U fz raw (a, v), Some v) else (br, bv))"
  by (auto simp: Let_def alias_score_def max_def)

lemma fuzzy_loop_spec:
  "fuzzy_loop U fz raw c xs (br, bv) =
     (case first_max (alias_score U fz raw) (filter (\<lambda>e. real_of_int c \<le> alias_score U fz raw e) xs) of
        None \<Rightarrow> (br, bv)
      | Some e \<Rightarrow> if br < alias_score U fz raw e then (alias_score U fz raw e, Some (snd e)) else (br, bv))"
proof (induction xs arbitrary: br bv)
  case Nil
  show ?case by simp
next
  case (Cons x xs)
  obtain a v where x: "x = (a, v)" by (cases x)
  let ?sc = "alias_score U fz raw"
  let ?rest = "first_max ?sc (filter (\<lambda>e. real_of_int c \<le> ?sc e) xs)"
  show ?case
  proof (cases "real_of_int c \<le> ?sc (a, v)")
    case False
    then show ?thesis unfolding x fuzzy_step by (simp add: Cons.IH)
  next
    case q: True
    show ?thesis
    proof (cases ?rest)
      case None
      with q show ?thesis unfolding x fuzzy_step by (simp add: Cons.IH)
    next
      case (Some y)
      with q show ?thesis unfolding x fuzzy_step by (auto simp: Cons.IH)
    qed
  qed
qed

lemma fallback_loop_spec:
  "fallback_loop U raw mapping = map_option snd (spec_first_contained U raw mapping)"
  by (induction mapping) (auto simp: spec_first_contained_def py_in_iff)


lemma first_max_filter_split:
  "first_max f (filter q xs) = Some x \<Longrightarrow>
     \<exists>pre post. xs = pre @ x # post \<and> q x
       \<and> (\<forall>y \<in> set pre. q y \<longrightarrow> f y < f x) \<and> (\<forall>y \<in> set post. q y \<longrightarrow> f y \<le> f x)"
proof (induction xs arbitrary: x)
  case Nil
  then show ?case by simp
next
  case (Cons a xs)
  show ?case
  proof (cases "q a")
    case False
    with Cons.prems have "first_max f (filter q xs) = Some x" by simp
    from Cons.IH [OF this] obtain pre post where
      s: "xs = pre @ x # post" "q x" "\<forall>y \<in> set pre. q y \<longrightarrow> f y < f x"
        "\<forall>y \<in> set post. q y \<longrightarrow> f y \<le> f x" by blast
    with False have "a # xs = (a # pre) @ x # post \<and> q x
        \<and> (\<forall>y \<in> set (a # pre). q y \<longrightarrow> f y < f x) \<and> (\<forall>y \<in> set post. q y \<longrightarrow> f y \<le> f x)"
      by simp
    then show ?thesis by blast
  next
    case qa: True
    show ?thesis
    proof (cases "first_max f (filter q xs)")
      case None
      then have e: "filter q xs = []" by (simp add: first_max_None)
      with Cons.prems qa have "x = a" by simp
      moreover from e have "\<forall>y \<in> set xs. \<not> q y" by (simp add: filter_empty_conv)
      ultimately have "a # xs = [] @ x # xs \<and> q x
        \<and> (\<forall>y \<in> set []. q y \<longrightarrow> f y < f x) \<and> (\<forall>y \<in> set xs. q y \<longrightarrow> f y \<le> f x)"
        using qa by simp
      then show ?thesis by blast
    next
      case (Some y)
      from Cons.IH [OF Some] obtain pre post where
        s: "xs = pre @ y # post" "q y" "\<forall>z \<in> set pre. q z \<longrightarrow> f z < f y"
          "\<forall>z \<in> set post. q z \<longrightarrow> f z \<le> f y" by blast
      show ?thesis
      proof (cases "f a < f y")
        case True
        with Cons.prems Some qa have "x = y" by simp
        with s True have "a # xs = (a # pre) @ x # post \<and> q x
          \<and> (\<forall>z \<in> set (a # pre). q z \<longrightarrow> f z < f x) \<and> (\<forall>z \<in> set post. q z \<longrightarrow> f z \<le> f x)"
          by simp
        then show ?thesis by blast
      next
        case False
        with Cons.prems Some qa have xa: "x = a" by simp
        have "\<forall>z \<in> set xs. q z \<longrightarrow> f z \<le> f a"
        proof (intro ballI impI)
          fix z assume "z \<in> set xs" "q z"
          with s have "f z \<le> f y" by (auto simp: less_imp_le)
          with False show "f z \<le> f a" by simp
        qed
        with xa qa have "a # xs = [] @ x # xs \<and> q x
          \<and> (\<forall>z \<in> set []. q z \<longrightarrow> f z < f x) \<and> (\<forall>z \<in> set xs. q z \<longrightarrow> f z \<le> f x)"
          by simp
        then show ?thesis by blast
      qed
    qed
  qed
qed

lemma spec_best_meaning:
  assumes "spec_best U fz raw mapping cutoff = Some x"
  shows "real_of_int cutoff \<le> alias_score U fz raw x
     \<and> (\<exists>pre post. mapping = pre @ x # post
           \<and> (\<forall>y \<in> set pre. alias_score U fz raw y < alias_score U fz raw x)
           \<and> (\<forall>y \<in> set post. alias_score U fz raw y \<le> alias_score U fz raw x))"
proof -
  let ?sc = "alias_score U fz raw"
  from first_max_filter_split [OF assms [unfolded spec_best_def]] obtain pre post where
    s: "mapping = pre @ x # post" "real_of_int cutoff \<le> ?sc x"
      "\<forall>y \<in> set pre. real_of_int cutoff \<le> ?sc y \<longrightarrow> ?sc y < ?sc x"
      "\<forall>y \<in> set post. real_of_int cutoff \<le> ?sc y \<longrightarrow> ?sc y \<le> ?sc x" by blast
  have "\<forall>y \<in> set pre. ?sc y < ?sc x"
  proof
    fix y assume "y \<in> set pre"
    with s(2,3) show "?sc y < ?sc x" by (cases "real_of_int cutoff \<le> ?sc y") auto
  qed
  moreover have "\<forall>y \<in> set post. ?sc y \<le> ?sc x"
  proof
    fix y assume "y \<in> set post"
    with s(2,4) show "?sc y \<le> ?sc x" by (cases "real_of_int cutoff \<le> ?sc y") auto
  qed
  ultimately show ?thesis using s(1,2) by blast
qed

lemma spec_best_none:
  assumes "spec_best U fz raw mapping cutoff = None"
  shows "\<forall>y \<in> set mapping. alias_score U fz raw y < real_of_int cutoff"
  using assms by (auto simp: spec_best_def first_max_None filter_empty_conv not_le)

lemma resolve_fuzzy:
  assumes "fournisseur_raw e = Some raw" "raw \<noteq> []" "mapping \<noteq> []" "0 < cutoff"
  shows "resolve_fournisseur U (Some fz) e mapping cutoff =
        (case spec_best U fz raw mapping cutoff of
           Some (a, v) \<Rightarrow> if v \<noteq> [] then e\<lparr>fournisseur := Some v\<rparr> else e
         | None \<Rightarrow> e)"
proof (cases "spec_best U fz raw mapping cutoff")
  case None
  then show ?thesis using assms
    by (simp add: resolve_fournisseur_def fuzzy_loop_spec spec_best_def)
next
  case (Some x)
  obtain a v where x: "x = (a, v)" by (cases x)
  from spec_best_meaning [OF Some] assms(4) have "0 < alias_score U fz raw x"
    by (smt (verit) of_int_0_less_iff)
  with Some x show ?thesis using assms
    by (simp add: resolve_fournisseur_def fuzzy_loop_spec spec_best_def)
qed

lemma resolve_fallback:
  assumes "fournisseur_raw e = Some raw" "raw \<noteq> []" "mapping \<noteq> []"
  shows "resolve_fournisseur U None e mapping cutoff =
        (case spec_first_contained U raw mapping of
           Some (a, v) \<Rightarrow> e\<lparr>fournisseur := Some v\<rparr>
         | None \<Rightarrow> e)"
  using assms
  by (auto simp: resolve_fournisseur_def fallback_loop_spec split: option.splits)

lemma resolve_noop:
  assumes "\<not> truthy (fournisseur_raw e) \<or> mapping = []"
  shows "resolve_fournisseur U fm e mapping cutoff = e"
  using assms by (cases "fournisseur_raw e") (auto simp: resolve_fournisseur_def)

text \<open>
  C8, as the code has it. Resolution changes nothing when the raw supplier text is absent
  or empty or the mapping is empty. Otherwise, with the scorer available and a positive
  cutoff, it takes the first alias of maximal score among those that meet the cutoff and
  assigns its canonical name when that name is not empty; with no scorer, it assigns the
  canonical name of the first alias contained in the raw text, both lower-cased; in every
  other case the record is returned as it was. \<open>spec_best\<close> is what its name says: the
  alias it returns meets the cutoff, every alias before it in the mapping scores less and
  every alias after it scores no more; it returns none only when no alias meets the cutoff.
\<close>

theorem resolve_fournisseur_spec:
  "(\<not> truthy (fournisseur_raw e) \<or> mapping = [] \<longrightarrow> resolve_fournisseur U fm e mapping cutoff = e)
   \<and> (fournisseur_raw e = Some raw \<and> raw \<noteq> [] \<and> mapping \<noteq> [] \<and> 0 < cutoff \<longrightarrow>
        resolve_fournisseur U (Some fz) e mapping cutoff =
          (case spec_best U fz raw mapping cutoff of
             Some (a, v) \<Rightarrow> if v \<noteq> [] then e\<lparr>fournisseur := Some v\<rparr> else e
           | None \<Rightarrow> e))
   \<and> (fournisseur_raw e = Some raw \<and> raw \<noteq> [] \<and> mapping \<noteq> [] \<longrightarrow>
        resolve_fournisseur U None e mapping cutoff =
          (case spec_first_contained U raw mapping of
             Some (a, v) \<Rightarrow> e\<lparr>fournisseur := Some v\<rparr>
           | None \<Rightarrow> e))
   \<and> (spec_best U fz raw mapping cutoff = Some x \<longrightarrow>
        real_of_int cutoff \<le> alias_score U fz raw x
        \<and> (\<exists>pre post. mapping = pre @ x # post
              \<and> (\<forall>y \<in> set pre. alias_score U fz raw y < alias_score U fz raw x)
              \<and> (\<forall>y \<in> set post. alias_score U fz raw y \<le> alias_score U fz raw x)))
   \<and> (spec_best U fz raw mapping cutoff = None \<longrightarrow>
        (\<forall>y \<in> set mapping. alias_score U fz raw y < real_of_int cutoff))"
  using resolve_noop [of e mapping U fm cutoff] resolve_fuzzy [of e raw mapping cutoff U fz]
    resolve_fallback [of e raw mapping U cutoff] spec_best_meaning [of U fz raw mapping cutoff x]
    spec_best_none [of U fz raw mapping cutoff]
  by (intro conjI impI) blast+

text \<open>
  The claim as stated fails in two corners. An alias of maximal score that meets the cutoff
  but maps to an empty canonical name is not assigned, because the code tests
  \<open>if best_value\<close>; and with a cutoff of 0 an alias whose score is 0 meets the cutoff and is
  not assigned, because \<open>best_ratio\<close> starts at 0 and is only beaten by a larger score.
\<close>

theorem resolve_fournisseur_counterexample:
  "spec_best ascii_unicode example_fuzz (u ''edf'') [(u ''edf'', [])] 70 = Some (u ''edf'', [])
   \<and> fournisseur (resolve_fournisseur ascii_unicode (Some example_fuzz) (example_raw (u ''edf''))
        [(u ''edf'', [])] 70) = None
   \<and> spec_best ascii_unicode example_fuzz (u ''abc'') [(u ''xyz'', u ''XYZ'')] 0
        = Some (u ''xyz'', u ''XYZ'')
   \<and> fournisseur (resolve_fournisseur ascii_unicode (Some example_fuzz) (example_raw (u ''abc''))
        [(u ''xyz'', u ''XYZ'')] 0) = None"
  by code_simp


theorem resolve_fournisseur_spec_witness:
  "resolve_fournisseur ascii_unicode (Some example_fuzz) (example_raw (u ''EDF SA''))
       [(u ''Engie'', u ''ENGIE''), (u ''EDF SA'', u ''EDF'')] DEFAULT_SCORE_CUTOFF
     = (example_raw (u ''EDF SA''))\<lparr>fournisseur := Some (u ''EDF'')\<rparr>
   \<and> resolve_fournisseur ascii_unicode None (example_raw (u ''Facture EDF SA''))
       [(u ''Engie'', u ''ENGIE''), (u ''edf'', u ''EDF'')] DEFAULT_SCORE_CUTOFF
     = (example_raw (u ''Facture EDF SA''))\<lparr>fournisseur := Some (u ''EDF'')\<rparr>
   \<and> resolve_fournisseur ascii_unicode (Some example_fuzz) (example_raw [])
       [(u ''EDF SA'', u ''EDF'')] DEFAULT_SCORE_CUTOFF
     = example_raw []"
proof -
  let ?m = "[(u ''Engie'', u ''ENGIE''), (u ''EDF SA'', u ''EDF'')]"
  let ?m2 = "[(u ''Engie'', u ''ENGIE''), (u ''edf'', u ''EDF'')]"
  have c: "0 < DEFAULT_SCORE_CUTOFF" by (simp add: DEFAULT_SCORE_CUTOFF_def)
  have raw: "fournisseur_raw (example_raw r) = Some r" for r by (simp add: example_raw_def)
  have b: "spec_best ascii_unicode example_fuzz (u ''EDF SA'') ?m DEFAULT_SCORE_CUTOFF
      = Some (u ''EDF SA'', u ''EDF'')"
    by code_simp
  have f: "spec_first_contained ascii_unicode (u ''Facture EDF SA'') ?m2 = Some (u ''edf'', u ''EDF'')"
    unfolding spec_first_contained_def py_in_iff [symmetric] by code_simp
  have 1: "resolve_fournisseur ascii_unicode (Some example_fuzz) (example_raw (u ''EDF SA'')) ?m
       DEFAULT_SCORE_CUTOFF = (example_raw (u ''EDF SA''))\<lparr>fournisseur := Some (u ''EDF'')\<rparr>"
    using resolve_fournisseur_spec [of "example_raw (u ''EDF SA'')" ?m ascii_unicode "Some example_fuzz"
        DEFAULT_SCORE_CUTOFF "u ''EDF SA''" example_fuzz] c raw b
    by simp
  have 2: "resolve_fournisseur ascii_unicode None (example_raw (u ''Facture EDF SA'')) ?m2
       DEFAULT_SCORE_CUTOFF = (example_raw (u ''Facture EDF SA''))\<lparr>fournisseur := Some (u ''EDF'')\<rparr>"
    using resolve_fournisseur_spec [of "example_raw (u ''Facture EDF SA'')" ?m2 ascii_unicode None
        DEFAULT_SCORE_CUTOFF "u ''Facture EDF SA''"] raw f
    by simp
  have 3: "resolve_fournisseur ascii_unicode (Some example_fuzz) (example_raw [])
       [(u ''EDF SA'', u ''EDF'')] DEFAULT_SCORE_CUTOFF = example_raw []"
    using resolve_fournisseur_spec [of "example_raw []" "[(u ''EDF SA'', u ''EDF'')]" ascii_unicode
        "Some example_fuzz" DEFAULT_SCORE_CUTOFF] raw [of "[]"]
    by simp
  from 1 2 3 show ?thesis by (intro conjI)
qed

section \<open>Proofs: slugify\<close>

lemma sub_runs_set:
  "c \<in> set (sub_runs U b s) \<Longrightarrow> c = 95 \<or> (c \<in> set s \<and> c \<noteq> 45 \<and> \<not> uc_isspace U c)"
  by (induction U b s rule: sub_runs.induct) (auto split: if_splits)

lemma sub_runs_id:
  "\<forall>c \<in> set s. c \<noteq> 45 \<and> \<not> uc_isspace U c \<Longrightarrow> sub_runs U b s = s"
  by (induction s arbitrary: b) auto

lemma sub_special_set:
  assumes "uc_isspace U 32" "c \<in> set (sub_special U s)" "\<not> uc_isspace U c"
  shows "c \<in> set s \<and> (re_word U c \<or> c = 45)"
  using assms by (auto simp: sub_special_def split: if_splits)

lemma sub_special_id: "\<forall>c \<in> set s. re_word U c \<Longrightarrow> sub_special U s = s"
  by (simp add: sub_special_def map_idI)

lemma strip_chars_set: "set (py_strip_chars cs s) \<subseteq> set s"
proof
  fix x assume "x \<in> set (py_strip_chars cs s)"
  then have "x \<in> set (dropWhile (\<lambda>c. c \<in> set cs) (rev (dropWhile (\<lambda>c. c \<in> set cs) s)))"
    by (simp add: py_strip_chars_def)
  then have "x \<in> set (rev (dropWhile (\<lambda>c. c \<in> set cs) s))" by (rule set_dropWhileD)
  then have "x \<in> set (dropWhile (\<lambda>c. c \<in> set cs) s)" by simp
  then show "x \<in> set s" by (rule set_dropWhileD)
qed

lemma dropWhile_hd: "dropWhile P s \<noteq> [] \<Longrightarrow> \<not> P (hd (dropWhile P s))"
  by (metis hd_dropWhile)

lemma strip_chars_hd:
  assumes "py_strip_chars [95] s \<noteq> []"
  shows "hd (py_strip_chars [95] s) \<noteq> 95"
proof -
  let ?a = "dropWhile (\<lambda>c. c \<in> set [95]) s"
  let ?b = "dropWhile (\<lambda>c. c \<in> set [95]) (rev ?a)"
  from assms have b: "?b \<noteq> []" by (simp add: py_strip_chars_def)
  have a: "?a \<noteq> []"
  proof
    assume "?a = []"
    then have "?b = []" by (simp only: rev.simps dropWhile.simps)
    with b show False by contradiction
  qed
  then have ha: "hd ?a \<notin> set [95]" by (rule dropWhile_hd)
  from b obtain ys where ys: "rev ?a = takeWhile (\<lambda>c. c \<in> set [95]) (rev ?a) @ ?b" by simp
  have "hd (rev ?b) = hd ?a"
  proof -
    have "?a = rev ?b @ rev (takeWhile (\<lambda>c. c \<in> set [95]) (rev ?a))"
      by (metis rev_append rev_rev_ident takeWhile_dropWhile_id)
    with b show ?thesis by (metis hd_append2 rev_is_Nil_conv)
  qed
  with ha show ?thesis by (simp add: py_strip_chars_def)
qed

lemma strip_chars_no_lead:
  assumes "s = [] \<or> hd s \<noteq> 95"
  shows "py_strip_chars [95] s = rstrip_underscores s"
proof -
  from assms have "dropWhile (\<lambda>c. c \<in> set [95]) s = s" by (cases s) auto
  then show ?thesis by (simp add: py_strip_chars_def rstrip_underscores_def)
qed

lemma rstrip_length: "length (rstrip_underscores s) \<le> length s"
  by (simp add: rstrip_underscores_def) (metis length_dropWhile_le length_rev)

lemma slugify_core:
  "slugify U v m = (if v = [] then [] else if m \<noteq> 0 then py_slice_to (slug_core U v) m else slug_core U v)"
  by (simp add: slugify_def slug_core_def Let_def)

lemma slug_core_chars:
  assumes "uc_isspace U 32" "c \<in> set (slug_core U v)"
  shows "c = 95 \<or> (uc_isalnum U c \<and> \<not> uc_isspace U c \<and> c \<noteq> 45 \<and> c \<in> set (uc_nfd U v))"
proof -
  from assms(2) strip_chars_set have "c \<in> set (sub_runs U False (sub_special U (filter (\<lambda>c. \<not> uc_is_mn U c) (uc_nfd U v))))"
    unfolding slug_core_def by blast
  from sub_runs_set [OF this] show ?thesis
  proof
    assume "c = 95" then show ?thesis by simp
  next
    assume a: "c \<in> set (sub_special U (filter (\<lambda>c. \<not> uc_is_mn U c) (uc_nfd U v))) \<and> c \<noteq> 45 \<and> \<not> uc_isspace U c"
    then have "c \<in> set (sub_special U (filter (\<lambda>c. \<not> uc_is_mn U c) (uc_nfd U v)))"
      "\<not> uc_isspace U c" "c \<noteq> 45" by simp_all
    from sub_special_set [OF assms(1) this(1,2)] this(3)
    have "c \<in> set (filter (\<lambda>c. \<not> uc_is_mn U c) (uc_nfd U v))" "re_word U c" by simp_all
    with a show ?thesis by (auto simp: re_word_def)
  qed
qed

lemma slugify_again:
  assumes t: "slug_tables U"
    and ch: "\<forall>c \<in> set s. c = 95 \<or> (uc_isalnum U c \<and> \<not> uc_isspace U c \<and> c \<noteq> 45 \<and> c \<in> set (uc_nfd U v))"
    and hd: "s = [] \<or> hd s \<noteq> 95"
    and len: "m = 0 \<or> int (length s) \<le> m"
  shows "slugify U s m = rstrip_underscores s"
proof (cases "s = []")
  case True
  then show ?thesis by (simp add: slugify_def rstrip_underscores_def)
next
  case False
  from t have sp: "uc_isspace U 32" "\<not> uc_isspace U 95" "\<not> uc_is_mn U 95"
    and mn: "\<forall>c. uc_isalnum U c \<longrightarrow> \<not> uc_is_mn U c"
    and nfd: "\<forall>s t. (\<forall>c \<in> set t. c = 95 \<or> (c \<in> set (uc_nfd U s) \<and> uc_isalnum U c)) \<longrightarrow> uc_nfd U t = t"
    by (simp_all add: slug_tables_def)
  from ch nfd have 1: "uc_nfd U s = s" by blast
  from ch mn sp(3) have 2: "filter (\<lambda>c. \<not> uc_is_mn U c) s = s" by (auto simp: filter_id_conv)
  from ch have 3: "sub_special U s = s" by (intro sub_special_id) (auto simp: re_word_def)
  from ch sp(2) have 4: "sub_runs U False s = s" by (intro sub_runs_id) auto
  have core: "slug_core U s = rstrip_underscores s"
    by (simp add: slug_core_def 1 2 3 4 strip_chars_no_lead [OF hd])
  show ?thesis
  proof (cases "m = 0")
    case True
    with False core show ?thesis by (simp add: slugify_core)
  next
    case m: False
    with len have "int (length s) \<le> m" by simp
    with rstrip_length [of s] have "nat m \<ge> length (rstrip_underscores s)" "0 \<le> m" by linarith+
    then have "py_slice_to (rstrip_underscores s) m = rstrip_underscores s"
      by (simp add: py_slice_to_def)
    with False m core show ?thesis by (simp add: slugify_core)
  qed
qed

lemma slugify_twice:
  assumes t: "slug_tables U" and m: "0 \<le> m"
  shows "slugify U (slugify U v m) m = rstrip_underscores (slugify U v m)"
proof (cases "v = []")
  case True
  then show ?thesis by (simp add: slugify_def rstrip_underscores_def)
next
  case False
  let ?r = "slug_core U v"
  let ?s = "slugify U v m"
  from t have sp: "uc_isspace U 32" by (simp add: slug_tables_def)
  have s: "?s = (if m \<noteq> 0 then take (nat m) ?r else ?r)"
    using False m by (simp add: slugify_core py_slice_to_def)
  have sub: "set ?s \<subseteq> set ?r" using s by (auto dest: in_set_takeD)
  have ch: "\<forall>c \<in> set ?s. c = 95 \<or> (uc_isalnum U c \<and> \<not> uc_isspace U c \<and> c \<noteq> 45 \<and> c \<in> set (uc_nfd U v))"
    using sub slug_core_chars [OF sp] by blast
  have hd: "?s = [] \<or> hd ?s \<noteq> 95"
  proof (cases "?s = []")
    case True then show ?thesis by simp
  next
    case ne: False
    then have "?r \<noteq> []" using s by (auto split: if_splits)
    then have "hd ?r \<noteq> 95" unfolding slug_core_def by (rule strip_chars_hd)
    moreover have "hd ?s = hd ?r" using s ne by (auto split: if_splits simp: hd_take)
    ultimately show ?thesis by simp
  qed
  have len: "m = 0 \<or> int (length ?s) \<le> m" using s m by auto
  from slugify_again [OF t ch hd len] show ?thesis .
qed


lemma strip_chars_last:
  assumes "py_strip_chars [95] s \<noteq> []"
  shows "last (py_strip_chars [95] s) \<noteq> 95"
proof -
  let ?b = "dropWhile (\<lambda>c. c \<in> set [95]) (rev (dropWhile (\<lambda>c. c \<in> set [95]) s))"
  from assms have b: "?b \<noteq> []" by (simp add: py_strip_chars_def)
  then have "hd ?b \<notin> set [95]" by (rule dropWhile_hd)
  moreover have "last (rev ?b) = hd ?b" using b by (simp add: last_rev)
  ultimately show ?thesis by (simp add: py_strip_chars_def)
qed

lemma rstrip_id: "s = [] \<or> last s \<noteq> 95 \<Longrightarrow> rstrip_underscores s = s"
proof (cases "s = []")
  case True
  then show ?thesis by (simp add: rstrip_underscores_def)
next
  case False
  assume "s = [] \<or> last s \<noteq> 95"
  with False have "hd (rev s) \<noteq> 95" by (simp add: hd_rev)
  with False have "dropWhile (\<lambda>c. c = 95) (rev s) = rev s" by (cases "rev s") auto
  then show ?thesis by (simp add: rstrip_underscores_def)
qed

lemma slugify_untruncated:
  assumes "m = 0 \<or> int (length (slugify U v 0)) \<le> m"
  shows "slugify U v m = [] \<or> last (slugify U v m) \<noteq> 95"
proof (cases "v = []")
  case True
  then show ?thesis by (simp add: slugify_def)
next
  case False
  then have z: "slugify U v 0 = slug_core U v" by (simp add: slugify_core)
  have "slugify U v m = slug_core U v"
  proof (cases "m = 0")
    case True
    with z show ?thesis by simp
  next
    case m: False
    with assms z have "int (length (slug_core U v)) \<le> m" by simp
    then have "py_slice_to (slug_core U v) m = slug_core U v" by (simp add: py_slice_to_def)
    with False m show ?thesis by (simp add: slugify_core)
  qed
  then show ?thesis using strip_chars_last [of "sub_runs U False (sub_special U (filter (\<lambda>c. \<not> uc_is_mn U c) (uc_nfd U v)))"]
    by (auto simp: slug_core_def)
qed

text \<open>
  C7, as the code has it. For a maximum length that is not negative, a second \<open>slugify\<close>
  only strips the underscores that the truncation left at the end of the first result.
  So \<open>slugify\<close> is idempotent whenever the first result does not end with an underscore,
  and in particular when nothing was cut (the maximum length is 0, which means no limit,
  or the whole slug fits).
\<close>

theorem slugify_twice_strips:
  "slug_tables U \<and> 0 \<le> m \<longrightarrow>
     slugify U (slugify U v m) m = rstrip_underscores (slugify U v m)
     \<and> (slugify U v m = [] \<or> last (slugify U v m) \<noteq> 95 \<longrightarrow>
          slugify U (slugify U v m) m = slugify U v m)
     \<and> (m = 0 \<or> int (length (slugify U v 0)) \<le> m \<longrightarrow>
          slugify U (slugify U v m) m = slugify U v m)"
proof
  assume a: "slug_tables U \<and> 0 \<le> m"
  then have tw: "slugify U (slugify U v m) m = rstrip_underscores (slugify U v m)"
    by (intro slugify_twice) simp_all
  have 2: "slugify U v m = [] \<or> last (slugify U v m) \<noteq> 95 \<longrightarrow>
          slugify U (slugify U v m) m = slugify U v m"
    using tw rstrip_id [of "slugify U v m"] by simp
  have 3: "m = 0 \<or> int (length (slugify U v 0)) \<le> m \<longrightarrow>
          slugify U (slugify U v m) m = slugify U v m"
    using 2 slugify_untruncated [of m U v] by blast
  from tw 2 3 show "slugify U (slugify U v m) m = rstrip_underscores (slugify U v m)
     \<and> (slugify U v m = [] \<or> last (slugify U v m) \<noteq> 95 \<longrightarrow>
          slugify U (slugify U v m) m = slugify U v m)
     \<and> (m = 0 \<or> int (length (slugify U v 0)) \<le> m \<longrightarrow>
          slugify U (slugify U v m) m = slugify U v m)" by (intro conjI)
qed

text \<open>
  The claim as stated fails when the truncation cuts just after an underscore:
  \<open>slugify("ab cd", 3)\<close> is \<open>"ab_"\<close>, and \<open>slugify("ab_", 3)\<close> is \<open>"ab"\<close>.
\<close>

theorem slugify_idempotent_counterexample:
  "slugify ascii_unicode (u ''ab cd'') 3 = u ''ab_''
   \<and> slugify ascii_unicode (slugify ascii_unicode (u ''ab cd'') 3) 3 = u ''ab''
   \<and> slugify ascii_unicode (slugify ascii_unicode (u ''ab cd'') 3) 3
       \<noteq> slugify ascii_unicode (u ''ab cd'') 3"
  by code_simp

lemma slug_tables_ascii: "slug_tables ascii_unicode"
  by (simp add: slug_tables_def ascii_unicode_def ascii_isspace_def)

theorem slugify_twice_strips_witness:
  "slug_tables ascii_unicode
   \<and> slugify ascii_unicode (u ''a--b  c'') 80 = u ''a_b_c''
   \<and> slugify ascii_unicode (slugify ascii_unicode (u ''a--b  c'') 80) 80 = u ''a_b_c''
   \<and> slugify ascii_unicode (slugify ascii_unicode (u ''ab cd'') 3) 3
       = rstrip_underscores (slugify ascii_unicode (u ''ab cd'') 3)"
proof -
  have v: "slugify ascii_unicode (u ''a--b  c'') 80 = u ''a_b_c''" by code_simp
  have l: "last (u ''a_b_c'') \<noteq> 95" by code_simp
  have l': "last (slugify ascii_unicode (u ''a--b  c'') 80) \<noteq> 95" unfolding v by (rule l)
  have "(0::int) \<le> 80" by simp
  with slugify_twice_strips [of ascii_unicode 80 "u ''a--b  c''"] slug_tables_ascii l'
  have "slugify ascii_unicode (slugify ascii_unicode (u ''a--b  c'') 80) 80
      = slugify ascii_unicode (u ''a--b  c'') 80" by blast
  then have 1: "slugify ascii_unicode (slugify ascii_unicode (u ''a--b  c'') 80) 80 = u ''a_b_c''"
    by (simp only: v)
  have "(0::int) \<le> 3" by simp
  with slugify_twice_strips [of ascii_unicode 3 "u ''ab cd''"] slug_tables_ascii
  have 2: "slugify ascii_unicode (slugify ascii_unicode (u ''ab cd'') 3) 3
       = rstrip_underscores (slugify ascii_unicode (u ''ab cd'') 3)" by blast
  from slug_tables_ascii v 1 2 show ?thesis by (intro conjI)
qed

section \<open>Proofs: destination file name\<close>

lemma build_destination_filename_unfold:
  "fst (build_destination_filename U P modele e cfg) =
     (let rendered = apply_template U modele (fst (build_placeholders U P e cfg)) in
      if py_endswith (uc_lower U rendered) (u ''.pdf'') then rendered else rendered @ u ''.pdf'')"
  by (cases "build_placeholders U P e cfg") (simp add: build_destination_filename_def Let_def)

text \<open>
  C10. The name that \<open>build_destination_filename\<close> returns is the rendered template when
  its lower-cased form ends with \<open>.pdf\<close>, and the rendered template followed by \<open>.pdf\<close>
  otherwise; so the name ends with \<open>.pdf\<close>, as it stands or once lower-cased; and an empty
  rendering gives exactly \<open>.pdf\<close>.
\<close>

theorem build_destination_filename_pdf:
  "fst (build_destination_filename U P modele e cfg) =
     (let rendered = apply_template U modele (fst (build_placeholders U P e cfg)) in
      if py_endswith (uc_lower U rendered) (u ''.pdf'') then rendered else rendered @ u ''.pdf'')
   \<and> (py_endswith (fst (build_destination_filename U P modele e cfg)) (u ''.pdf'')
        \<or> py_endswith (uc_lower U (fst (build_destination_filename U P modele e cfg))) (u ''.pdf''))
   \<and> (uc_lower U [] = [] \<and> apply_template U modele (fst (build_placeholders U P e cfg)) = []
        \<longrightarrow> fst (build_destination_filename U P modele e cfg) = u ''.pdf'')"
proof -
  let ?r = "apply_template U modele (fst (build_placeholders U P e cfg))"
  note unf = build_destination_filename_unfold [of U P modele e cfg]
  have 2: "py_endswith (fst (build_destination_filename U P modele e cfg)) (u ''.pdf'')
        \<or> py_endswith (uc_lower U (fst (build_destination_filename U P modele e cfg))) (u ''.pdf'')"
  proof (cases "py_endswith (uc_lower U ?r) (u ''.pdf'')")
    case True
    with unf show ?thesis by (simp add: Let_def)
  next
    case False
    with unf have "fst (build_destination_filename U P modele e cfg) = ?r @ u ''.pdf''"
      by (simp add: Let_def)
    then show ?thesis by (simp add: py_endswith_def suffix_def)
  qed
  have 3: "uc_lower U [] = [] \<and> ?r = [] \<longrightarrow> fst (build_destination_filename U P modele e cfg) = u ''.pdf''"
  proof
    assume a: "uc_lower U [] = [] \<and> ?r = []"
    then have "\<not> py_endswith (uc_lower U ?r) (u ''.pdf'')"
      by (simp add: py_endswith_def suffix_def u_def)
    with unf a show "fst (build_destination_filename U P modele e cfg) = u ''.pdf''"
      by (simp add: Let_def)
  qed
  from unf 2 3 show ?thesis by (intro conjI)
qed

lemma ex_render_empty:
  "apply_template ascii_unicode [] (fst (build_placeholders ascii_unicode example_platform example_full None)) = []"
  by code_simp

lemma ex_render_name:
  "fst (build_destination_filename ascii_unicode example_platform
         (u ''{YYYY}-{MM}-{DD}_{type_doc}_{fournisseur}_{numero}_{montant}{inconnue}'') example_full None)
   = u ''2024-03-15_FACT_EDF_FAC_2024_042_1500_00.pdf''"
  by code_simp

theorem build_destination_filename_pdf_witness:
  "fst (build_destination_filename ascii_unicode example_platform [] example_full None) = u ''.pdf''
   \<and> fst (build_destination_filename ascii_unicode example_platform
         (u ''{YYYY}-{MM}-{DD}_{type_doc}_{fournisseur}_{numero}_{montant}{inconnue}'') example_full None)
       = u ''2024-03-15_FACT_EDF_FAC_2024_042_1500_00.pdf''
   \<and> fst (build_destination_filename ascii_unicode example_platform (u ''Scan.PDF'') example_full None)
       = u ''Scan.PDF''"
proof -
  have l: "uc_lower ascii_unicode [] = []" by (simp add: ascii_unicode_def)
  from build_destination_filename_pdf [of ascii_unicode example_platform "[]" example_full None]
    l ex_render_empty
  have 1: "fst (build_destination_filename ascii_unicode example_platform [] example_full None) = u ''.pdf''"
    by blast
  have 3: "fst (build_destination_filename ascii_unicode example_platform (u ''Scan.PDF'') example_full None)
       = u ''Scan.PDF''"
    by code_simp
  from 1 ex_render_name 3 show ?thesis by (intro conjI)
qed

end
